theory Spec2Isabelle
  imports Main
begin

section \<open>JavaScript strings\<close>

text \<open>
  A JavaScript string is a sequence of UTF-16 code units; \<open>length\<close>, \<open>slice\<close> and
  the regular expressions of the terminal manager (none of which carries the \<open>u\<close> flag)
  all count and match code units. A code unit is modelled by its numeric value.
\<close>

type_synonym jschar = nat
type_synonym jsstring = "jschar list"

definition ascii :: "string \<Rightarrow> jsstring" where
  "ascii s = map of_char s"

text \<open>Truthiness of an optional string: \<open>undefined\<close> and the empty string are falsy.\<close>

fun truthy :: "jsstring option \<Rightarrow> bool" where
  "truthy None = False"
| "truthy (Some s) = (s \<noteq> [])"

text \<open>\<open>a || b\<close> on an optional string and a string.\<close>

fun orElse :: "jsstring option \<Rightarrow> jsstring \<Rightarrow> jsstring" where
  "orElse None d = d"
| "orElse (Some s) d = (if s = [] then d else s)"

text \<open>\<open>s.slice(-n)\<close> for a positive \<open>n\<close>: the last \<open>n\<close> code units, all of \<open>s\<close> when it is shorter.\<close>

definition sliceLast :: "nat \<Rightarrow> jsstring \<Rightarrow> jsstring" where
  "sliceLast n s = drop (length s - n) s"

text \<open>\<open>s.endsWith(suffix)\<close>.\<close>

definition endsWith :: "jsstring \<Rightarrow> jsstring \<Rightarrow> bool" where
  "endsWith s suffix = (length suffix \<le> length s \<and> drop (length s - length suffix) s = suffix)"

text \<open>\<open>s.replace(pat, rep)\<close> with a string pattern: only the first occurrence is replaced.\<close>

fun startsWith :: "jsstring \<Rightarrow> jsstring \<Rightarrow> bool" where
  "startsWith s [] = True"
| "startsWith [] (p # ps) = False"
| "startsWith (c # cs) (p # ps) = (c = p \<and> startsWith cs ps)"

fun replaceFirst :: "jsstring \<Rightarrow> jsstring \<Rightarrow> jsstring \<Rightarrow> jsstring" where
  "replaceFirst pat rep [] = (if pat = [] then rep else [])"
| "replaceFirst pat rep (c # cs) =
     (if startsWith (c # cs) pat then rep @ drop (length pat) (c # cs)
      else c # replaceFirst pat rep cs)"

text \<open>
  White space as \<open>\s\<close> and \<open>trim\<close> see it (ECMAScript WhiteSpace and LineTerminator),
  and the line terminators that \<open>.\<close> refuses and before which \<open>$\<close> matches under the
  \<open>m\<close> flag.
\<close>

definition isSpace :: "jschar \<Rightarrow> bool" where
  "isSpace c = (c \<in> set [9, 10, 11, 12, 13, 32, 160, 0x1680, 0x2028, 0x2029, 0x202F, 0x205F,
                          0x3000, 0xFEFF] \<or> (0x2000 \<le> c \<and> c \<le> 0x200A))"

definition isLineTerminator :: "jschar \<Rightarrow> bool" where
  "isLineTerminator c = (c = 10 \<or> c = 13 \<or> c = 0x2028 \<or> c = 0x2029)"

definition trim :: "jsstring \<Rightarrow> jsstring" where
  "trim s = rev (dropWhile isSpace (rev (dropWhile isSpace s)))"

text \<open>Decimal rendering of a number, as a template literal does it.\<close>

fun showNat :: "nat \<Rightarrow> jsstring" where
  "showNat n = (if n < 10 then [48 + n] else showNat (n div 10) @ [48 + n mod 10])"

declare showNat.simps [simp del]

section \<open>Regular expressions\<close>

text \<open>
  The constructs that the patterns of the terminal manager use. Quantifiers are only ever
  applied to a character class there. The matcher is a backtracking matcher as ECMAScript
  specifies it: \<open>ms r st\<close> lists, in the order in which backtracking would try them, the
  states reachable by matching \<open>r\<close> from state \<open>st\<close>; a state is the input that is left
  and the text captured by group 1 (\<open>None\<close> while the group has not taken part).
\<close>

datatype regex =
    Chr "jschar \<Rightarrow> bool"
  | Seq regex regex
  | Opt regex
  | Star "jschar \<Rightarrow> bool"
  | Plus "jschar \<Rightarrow> bool"
  | PlusLazy "jschar \<Rightarrow> bool"
  | Group regex
  | EndOfLine

type_synonym mstate = "jsstring \<times> jsstring option"

text \<open>Greedy repetition of a class: the longest run first, then shorter ones.\<close>

fun starGreedy :: "(jschar \<Rightarrow> bool) \<Rightarrow> jsstring \<Rightarrow> jsstring list" where
  "starGreedy p [] = [] # []"
| "starGreedy p (c # cs) = (if p c then starGreedy p cs @ [c # cs] else [c # cs])"

fun plusGreedy :: "(jschar \<Rightarrow> bool) \<Rightarrow> jsstring \<Rightarrow> jsstring list" where
  "plusGreedy p [] = []"
| "plusGreedy p (c # cs) = (if p c then starGreedy p cs else [])"

text \<open>Lazy repetition: the shortest run first.\<close>

fun starLazy :: "(jschar \<Rightarrow> bool) \<Rightarrow> jsstring \<Rightarrow> jsstring list" where
  "starLazy p [] = [] # []"
| "starLazy p (c # cs) = (if p c then (c # cs) # starLazy p cs else [c # cs])"

fun plusLazy :: "(jschar \<Rightarrow> bool) \<Rightarrow> jsstring \<Rightarrow> jsstring list" where
  "plusLazy p [] = []"
| "plusLazy p (c # cs) = (if p c then starLazy p cs else [])"

fun ms :: "regex \<Rightarrow> mstate \<Rightarrow> mstate list" where
  "ms (Chr p) (s, g) = (case s of [] \<Rightarrow> [] | c # cs \<Rightarrow> if p c then [(cs, g)] else [])"
| "ms (Seq a b) st = concat (map (ms b) (ms a st))"
| "ms (Opt a) st = ms a st @ [st]"
| "ms (Star p) (s, g) = map (\<lambda>s'. (s', g)) (starGreedy p s)"
| "ms (Plus p) (s, g) = map (\<lambda>s'. (s', g)) (plusGreedy p s)"
| "ms (PlusLazy p) (s, g) = map (\<lambda>s'. (s', g)) (plusLazy p s)"
| "ms (Group a) (s, g) =
     map (\<lambda>(s', _). (s', Some (take (length s - length s') s))) (ms a (s, g))"
| "ms EndOfLine (s, g) =
     (case s of [] \<Rightarrow> [(s, g)] | c # _ \<Rightarrow> if isLineTerminator c then [(s, g)] else [])"

text \<open>
  \<open>data.match(pattern)\<close> for a pattern without the \<open>g\<close> flag: the first way of matching
  at the leftmost position that has one. The result is \<open>None\<close> for \<open>null\<close>, and
  otherwise element 1 of the match array (\<open>None\<close> for \<open>undefined\<close>).
\<close>

fun match :: "jsstring \<Rightarrow> regex \<Rightarrow> jsstring option option" where
  "match [] r = (case ms r ([], None) of [] \<Rightarrow> None | (_, g) # _ \<Rightarrow> Some g)"
| "match (c # cs) r = (case ms r (c # cs, None) of [] \<Rightarrow> match cs r | (_, g) # _ \<Rightarrow> Some g)"

text \<open>Building blocks: a literal character, with and without the \<open>i\<close> flag, and literal text.\<close>

definition upper :: "jschar \<Rightarrow> jschar" where
  "upper c = (if 97 \<le> c \<and> c \<le> 122 then c - 32 else c)"

definition lit :: "jschar \<Rightarrow> regex" where
  "lit c = Chr (\<lambda>x. x = c)"

definition liti :: "jschar \<Rightarrow> regex" where
  "liti c = Chr (\<lambda>x. upper x = upper c)"

fun literal :: "(jschar \<Rightarrow> regex) \<Rightarrow> jsstring \<Rightarrow> regex \<Rightarrow> regex" where
  "literal f [] r = r"
| "literal f (c # cs) r = Seq (f c) (literal f cs r)"

text \<open>The class \<open>[a-zA-Z0-9_-]\<close> and the class \<open>["\s:=]\<close>.\<close>

definition isTokenChar :: "jschar \<Rightarrow> bool" where
  "isTokenChar c = ((97 \<le> c \<and> c \<le> 122) \<or> (65 \<le> c \<and> c \<le> 90) \<or> (48 \<le> c \<and> c \<le> 57)
                     \<or> c = 95 \<or> c = 45)"

definition isKeySep :: "jschar \<Rightarrow> bool" where
  "isKeySep c = (c = 34 \<or> isSpace c \<or> c = 58 \<or> c = 61)"

section \<open>Patterns of the terminal manager\<close>

text \<open>
  \<^verbatim>\<open>/Session(?:\s+ID)?:\s*([a-zA-Z0-9_-]+)/i\<close>,
  \<^verbatim>\<open>/session[_-]?id["\s:=]+([a-zA-Z0-9_-]+)/i\<close>,
  \<^verbatim>\<open>/Resuming session:\s*([a-zA-Z0-9_-]+)/i\<close>,
  \<^verbatim>\<open>/conversation[_-]?id["\s:=]+([a-zA-Z0-9_-]+)/i\<close>, in this order.
\<close>

definition token :: regex where
  "token = Group (Plus isTokenChar)"

definition pat_session_label :: regex where
  "pat_session_label =
     literal liti (ascii ''Session'')
       (Seq (Opt (Seq (Plus isSpace) (Seq (liti 73) (liti 68))))
         (Seq (lit 58) (Seq (Star isSpace) token)))"

definition pat_session_id :: regex where
  "pat_session_id =
     literal liti (ascii ''session'')
       (Seq (Opt (Chr (\<lambda>c. c = 95 \<or> c = 45)))
         (literal liti (ascii ''id'') (Seq (Plus isKeySep) token)))"

definition pat_resuming :: regex where
  "pat_resuming = literal liti (ascii ''Resuming session:'') (Seq (Star isSpace) token)"

definition pat_conversation_id :: regex where
  "pat_conversation_id =
     literal liti (ascii ''conversation'')
       (Seq (Opt (Chr (\<lambda>c. c = 95 \<or> c = 45)))
         (literal liti (ascii ''id'') (Seq (Plus isKeySep) token)))"

definition CLAUDE_SESSION_PATTERNS :: "regex list" where
  "CLAUDE_SESSION_PATTERNS =
     [pat_session_label, pat_session_id, pat_resuming, pat_conversation_id]"

text \<open>\<^verbatim>\<open>/Limit reached\s*[\<cdot>\<bullet>]\s*resets\s+(.+?)$/m\<close>: the separators are U+00B7 and U+2022.\<close>

definition RATE_LIMIT_PATTERN :: regex where
  "RATE_LIMIT_PATTERN =
     literal lit (ascii ''Limit reached'')
       (Seq (Star isSpace)
         (Seq (Chr (\<lambda>c. c = 0xB7 \<or> c = 0x2022))
           (Seq (Star isSpace)
             (literal lit (ascii ''resets'')
               (Seq (Plus isSpace)
                 (Seq (Group (PlusLazy (\<lambda>c. \<not> isLineTerminator c))) EndOfLine))))))"

text \<open>
  \<open>extractClaudeSessionId\<close>: the loop over the patterns returns the capture of the first
  pattern that matches with a non-empty group 1.
\<close>

fun firstMatch :: "regex list \<Rightarrow> jsstring \<Rightarrow> jsstring option" where
  "firstMatch [] data = None"
| "firstMatch (pattern # rest) data =
     (case match data pattern of
        Some (Some g) \<Rightarrow> if g \<noteq> [] then Some g else firstMatch rest data
      | _ \<Rightarrow> firstMatch rest data)"

definition extractClaudeSessionId :: "jsstring \<Rightarrow> jsstring option" where
  "extractClaudeSessionId data = firstMatch CLAUDE_SESSION_PATTERNS data"

text \<open>
  The order of the patterns as the specification words it: the \<open>Session:\<close> label, then
  the \<open>session_id\<close> and \<open>conversation_id\<close> key-value forms, then the
  \<open>Resuming session:\<close> phrase.
\<close>

definition specOrderPatterns :: "regex list" where
  "specOrderPatterns = [pat_session_label, pat_session_id, pat_conversation_id, pat_resuming]"

section \<open>Data model\<close>

text \<open>
  \<open>TerminalProcess\<close>: the in-memory record of a terminal. The field \<open>id\<close> is called
  \<open>tid\<close> here; \<open>pty\<close> is the handle of the pty process the record owns.
\<close>

record TerminalProcess =
  tid :: jsstring
  pty :: nat
  isClaudeMode :: bool
  projectPath :: "jsstring option"
  cwd :: jsstring
  claudeSessionId :: "jsstring option"
  outputBuffer :: jsstring
  title :: jsstring

text \<open>
  Modelled from the spec: \<open>TerminalSession\<close>, the persisted shape declared by the session
  store (section 3 of the specification), with the fields the manager reads and writes.
  A time stamp is the reading of the clock in milliseconds; the code stores its ISO
  rendering.
\<close>

record TerminalSession =
  session_id :: jsstring
  session_title :: jsstring
  session_cwd :: jsstring
  session_projectPath :: jsstring
  session_isClaudeMode :: bool
  session_claudeSessionId :: "jsstring option"
  session_outputBuffer :: jsstring
  createdAt :: int
  lastActiveAt :: int

record TerminalCreateOptions =
  opt_id :: jsstring
  opt_cwd :: "jsstring option"
  opt_cols :: "nat option"
  opt_rows :: "nat option"
  opt_projectPath :: "jsstring option"

text \<open>What a \<open>catch\<close> clause receives: an \<open>Error\<close> with its message, or any other value.\<close>

datatype thrown = Error jsstring | NonError

fun messageOr :: "thrown \<Rightarrow> jsstring \<Rightarrow> jsstring" where
  "messageOr (Error msg) fallback = msg"
| "messageOr NonError fallback = fallback"

record Result =
  success :: bool
  error :: "jsstring option"

record RestoreResult = Result +
  replayBuffer :: "jsstring option"

text \<open>Messages sent to the renderer, one constructor per IPC channel.\<close>

datatype ipc =
    TERMINAL_OUTPUT jsstring jsstring
  | TERMINAL_EXIT jsstring int
  | TERMINAL_CLAUDE_SESSION jsstring jsstring
  | TERMINAL_RATE_LIMIT jsstring jsstring int
  | TERMINAL_TITLE_CHANGE jsstring jsstring

text \<open>Calls made on the pty primitive: spawn (columns, rows, working directory), write, resize, kill.\<close>

datatype ptyCall = Spawn nat nat jsstring | Write jsstring | Resize nat nat | Kill

text \<open>
  The closure of one polling capture: the arguments of \<open>captureClaudeSessionId\<close>, its
  counter \<open>attempts\<close>, and the time at which the pending timer is due.
\<close>

record CaptureTask =
  terminalId :: jsstring
  taskPath :: jsstring
  startTime :: int
  attempts :: nat
  due :: int

text \<open>
  The state of a \<open>TerminalManager\<close> and of what it talks to.
  \<^item> \<open>terminals\<close> is the \<open>Map\<close>, in insertion order; a value is a reference to a
    \<open>TerminalProcess\<close> object, which lives in \<open>heap\<close> (the handlers of a pty keep their
    reference to the object after its key has left the map).
  \<^item> \<open>saveTimer\<close> holds the period of the armed interval timer, or \<open>None\<close> for \<open>null\<close>.
  \<^item> \<open>store\<close> is the session store, \<open>window\<close> tells whether \<open>getWindow()\<close> returns a
    window, \<open>sent\<close> lists the messages sent to it, \<open>ptyCalls\<close> the calls made on pty
    processes.
  \<^item> \<open>spawnThrows\<close> and \<open>killThrows\<close> say what the pty primitive will throw, \<open>now\<close> is the
    clock, \<open>homedir\<close> the home directory, and \<open>claudeDir p\<close> the listing of the session
    directory that belongs to project path \<open>p\<close>: \<open>None\<close> when the directory does not
    exist, and otherwise the file names, each with its modification time (\<open>None\<close> when
    \<open>statSync\<close> throws).
\<close>

record TerminalManager =
  terminals :: "(jsstring \<times> nat) list"
  saveTimer :: "nat option"
  rateLimitNotifiedAt :: "jsstring \<rightharpoonup> int"
  heap :: "nat \<Rightarrow> TerminalProcess"
  nextRef :: nat
  store :: "(jsstring \<times> jsstring) \<rightharpoonup> TerminalSession"
  window :: bool
  sent :: "ipc list"
  ptyCalls :: "(nat \<times> ptyCall) list"
  spawnThrows :: "thrown option"
  killThrows :: "nat \<Rightarrow> thrown option"
  now :: int
  homedir :: jsstring
  claudeDir :: "jsstring \<Rightarrow> (jsstring \<times> int option) list option"

section \<open>Collaborators\<close>

text \<open>\<open>win.webContents.send\<close> under the guard \<open>if (win)\<close>.\<close>

definition send :: "TerminalManager \<Rightarrow> ipc \<Rightarrow> TerminalManager" where
  "send m e = (if window m then m\<lparr>sent := sent m @ [e]\<rparr> else m)"

text \<open>Assignment to fields of the object behind a reference.\<close>

definition update :: "TerminalManager \<Rightarrow> nat \<Rightarrow> (TerminalProcess \<Rightarrow> TerminalProcess) \<Rightarrow> TerminalManager" where
  "update m r f = m\<lparr>heap := (heap m)(r := f (heap m r))\<rparr>"

text \<open>\<open>pty.write\<close> and \<open>pty.resize\<close> are taken not to throw; \<open>pty.kill\<close> may.\<close>

definition ptyWrite :: "TerminalManager \<Rightarrow> nat \<Rightarrow> jsstring \<Rightarrow> TerminalManager" where
  "ptyWrite m p data = m\<lparr>ptyCalls := ptyCalls m @ [(p, Write data)]\<rparr>"

definition ptyResize :: "TerminalManager \<Rightarrow> nat \<Rightarrow> nat \<Rightarrow> nat \<Rightarrow> TerminalManager" where
  "ptyResize m p cols rows = m\<lparr>ptyCalls := ptyCalls m @ [(p, Resize cols rows)]\<rparr>"

definition ptyKill :: "TerminalManager \<Rightarrow> nat \<Rightarrow> thrown option \<times> TerminalManager" where
  "ptyKill m p = (killThrows m p, m\<lparr>ptyCalls := ptyCalls m @ [(p, Kill)]\<rparr>)"

text \<open>
  Modelled from the spec: the session store of \<open>terminal-session-store\<close>, whose code is not
  part of the sources. Section 5 of the specification makes a write an idempotent upsert
  keyed by project path and id and a delete an idempotent removal; the update of the
  assistant session id changes that field of the record, when there is one. The calls
  return normally; the one exception is the call inside the \<open>try\<close> block of \<open>create\<close>,
  for which \<open>createWith\<close> takes what it throws as an argument.
\<close>

definition saveSession :: "TerminalManager \<Rightarrow> TerminalSession \<Rightarrow> TerminalManager" where
  "saveSession m session =
     m\<lparr>store := (store m)((session_projectPath session, session_id session) \<mapsto> session)\<rparr>"

definition getSession :: "TerminalManager \<Rightarrow> jsstring \<Rightarrow> jsstring \<Rightarrow> TerminalSession option" where
  "getSession m path i = store m (path, i)"

definition removeSession :: "TerminalManager \<Rightarrow> jsstring \<Rightarrow> jsstring \<Rightarrow> TerminalManager" where
  "removeSession m path i = m\<lparr>store := (store m)((path, i) := None)\<rparr>"

definition updateClaudeSessionId :: "TerminalManager \<Rightarrow> jsstring \<Rightarrow> jsstring \<Rightarrow> jsstring \<Rightarrow> TerminalManager" where
  "updateClaudeSessionId m path i sessionId =
     (case store m (path, i) of
        None \<Rightarrow> m
      | Some session \<Rightarrow>
          m\<lparr>store := (store m)((path, i) \<mapsto> session\<lparr>session_claudeSessionId := Some sessionId\<rparr>)\<rparr>)"

section \<open>Session directory scanner\<close>

text \<open>
  \<open>findClaudeSessionAfter\<close>. The session directory is found from the project path by
  \<open>getClaudeProjectSlug\<close> (a SHA-256 digest) and the home directory; the listing of that
  directory is passed in as \<open>dir\<close>. An exception inside the \<open>try\<close> block gives \<open>null\<close>.
\<close>

fun statAll :: "(jsstring \<times> int option) list \<Rightarrow> (jsstring \<times> int) list option" where
  "statAll [] = Some []"
| "statAll ((name, None) # fs) = None"
| "statAll ((name, Some mtime) # fs) =
     (case statAll fs of None \<Rightarrow> None | Some rest \<Rightarrow> Some ((name, mtime) # rest))"

definition findClaudeSessionAfter ::
  "(jsstring \<Rightarrow> (jsstring \<times> int option) list option) \<Rightarrow> jsstring \<Rightarrow> int \<Rightarrow> jsstring option" where
  "findClaudeSessionAfter dir path afterTimestamp =
     (case dir path of
        None \<Rightarrow> None
      | Some entries \<Rightarrow>
          (case statAll (filter (\<lambda>f. endsWith (fst f) (ascii ''.jsonl'')) entries) of
             None \<Rightarrow> None
           | Some stats \<Rightarrow>
               (case sort_key (\<lambda>f. - snd f) (filter (\<lambda>f. snd f > afterTimestamp) stats) of
                  [] \<Rightarrow> None
                | f # _ \<Rightarrow> Some (replaceFirst (ascii ''.jsonl'') [] (fst f)))))"

section \<open>The terminal manager\<close>

text \<open>The constructor: an empty registry, the 30-second interval timer armed, no cool-down entry.\<close>

definition newTerminalManager :: "TerminalManager \<Rightarrow> TerminalManager" where
  "newTerminalManager world =
     world\<lparr>terminals := [], saveTimer := Some 30000, rateLimitNotifiedAt := Map.empty\<rparr>"

definition okResult :: Result where
  "okResult = \<lparr>success = True, error = None\<rparr>"

definition failResult :: "jsstring \<Rightarrow> Result" where
  "failResult msg = \<lparr>success = False, error = Some msg\<rparr>"

subsection \<open>persistAllSessions\<close>

text \<open>The record that \<open>persistAllSessions\<close> builds for a terminal with project path \<open>path\<close>.\<close>

definition sessionOf :: "TerminalManager \<Rightarrow> TerminalProcess \<Rightarrow> jsstring \<Rightarrow> TerminalSession" where
  "sessionOf m terminal path =
     \<lparr>session_id = tid terminal,
      session_title = title terminal,
      session_cwd = cwd terminal,
      session_projectPath = path,
      session_isClaudeMode = isClaudeMode terminal,
      session_claudeSessionId = claudeSessionId terminal,
      session_outputBuffer = outputBuffer terminal,
      createdAt = now m,
      lastActiveAt = now m\<rparr>"

definition persistTerminal :: "TerminalManager \<Rightarrow> nat \<Rightarrow> TerminalManager" where
  "persistTerminal m r =
     (let terminal = heap m r in
      case projectPath terminal of
        None \<Rightarrow> m
      | Some path \<Rightarrow> if path = [] then m else saveSession m (sessionOf m terminal path))"

definition persistAllSessions :: "TerminalManager \<Rightarrow> TerminalManager" where
  "persistAllSessions m = foldl persistTerminal m (map snd (terminals m))"

subsection \<open>The output handler of a pty\<close>

text \<open>
  The handler that \<open>create\<close> installs with \<open>ptyProcess.onData\<close>. It closes over the
  object \<open>terminal\<close> (the reference \<open>r\<close>) and over \<open>id\<close>, which is the \<open>id\<close> field of
  that object. Its four steps are given one by one. The rate-limit message carries the
  reading of the clock as \<open>detectedAt\<close>, where the code sends its ISO rendering.
\<close>

definition appendOutput :: "TerminalManager \<Rightarrow> nat \<Rightarrow> jsstring \<Rightarrow> TerminalManager" where
  "appendOutput m r data =
     update m r (\<lambda>t. t\<lparr>outputBuffer := sliceLast 100000 (outputBuffer t @ data)\<rparr>)"

definition adoptSessionId :: "TerminalManager \<Rightarrow> nat \<Rightarrow> jsstring \<Rightarrow> jsstring \<Rightarrow> TerminalManager" where
  "adoptSessionId m r i sessionId =
     (let m1 = update m r (\<lambda>t. t\<lparr>claudeSessionId := Some sessionId\<rparr>);
          m2 = (case projectPath (heap m1 r) of
                  None \<Rightarrow> m1
                | Some path \<Rightarrow> if path = [] then m1 else updateClaudeSessionId m1 path i sessionId)
      in send m2 (TERMINAL_CLAUDE_SESSION i sessionId))"

definition captureFromOutput :: "TerminalManager \<Rightarrow> nat \<Rightarrow> jsstring \<Rightarrow> TerminalManager" where
  "captureFromOutput m r data =
     (if isClaudeMode (heap m r) \<and> \<not> truthy (claudeSessionId (heap m r)) then
        (case extractClaudeSessionId data of
           None \<Rightarrow> m
         | Some sessionId \<Rightarrow>
             if sessionId = [] then m else adoptSessionId m r (tid (heap m r)) sessionId)
      else m)"

definition checkRateLimit :: "TerminalManager \<Rightarrow> nat \<Rightarrow> jsstring \<Rightarrow> TerminalManager" where
  "checkRateLimit m r data =
     (if isClaudeMode (heap m r) then
        (case match data RATE_LIMIT_PATTERN of
           Some (Some g) \<Rightarrow>
             (let resetTime = trim g;
                  i = tid (heap m r);
                  lastNotified = (case rateLimitNotifiedAt m i of None \<Rightarrow> 0 | Some t \<Rightarrow> t)
              in if now m - lastNotified > 60000 then
                   send (m\<lparr>rateLimitNotifiedAt := (rateLimitNotifiedAt m)(i \<mapsto> now m)\<rparr>)
                     (TERMINAL_RATE_LIMIT i resetTime (now m))
                 else m)
         | _ \<Rightarrow> m)
      else m)"

definition onData :: "TerminalManager \<Rightarrow> nat \<Rightarrow> jsstring \<Rightarrow> TerminalManager" where
  "onData m r data =
     (let m1 = appendOutput m r data;
          m2 = captureFromOutput m1 r data;
          m3 = checkRateLimit m2 r data
      in send m3 (TERMINAL_OUTPUT (tid (heap m3 r)) data))"

text \<open>The exit handler; \<open>this.terminals.delete(id)\<close> removes whatever the key holds.\<close>

definition deleteKey :: "jsstring \<Rightarrow> (jsstring \<times> nat) list \<Rightarrow> (jsstring \<times> nat) list" where
  "deleteKey i ts = filter (\<lambda>e. fst e \<noteq> i) ts"

definition onExit :: "TerminalManager \<Rightarrow> nat \<Rightarrow> int \<Rightarrow> TerminalManager" where
  "onExit m r exitCode =
     (let i = tid (heap m r);
          m1 = send m (TERMINAL_EXIT i exitCode);
          m2 = (case projectPath (heap m1 r) of
                  None \<Rightarrow> m1
                | Some path \<Rightarrow> if path = [] then m1 else removeSession m1 path i)
      in m2\<lparr>terminals := deleteKey i (terminals m2)\<rparr>)"

subsection \<open>create\<close>

text \<open>
  The \<open>catch\<close> clause of \<open>create\<close> covers the whole \<open>try\<close> block: the spawn of the pty
  and also the call \<open>store.saveSession\<close> that saves the initial record of a terminal with
  a project path. The code of the store is not part of the sources; what this one call
  throws is the argument \<open>saveThrows\<close> of \<open>createWith\<close> (\<open>None\<close> when it returns). When it
  throws, the process has been spawned and the record registered.
\<close>

definition createWith ::
  "thrown option \<Rightarrow> TerminalManager \<Rightarrow> TerminalCreateOptions \<Rightarrow> Result \<times> TerminalManager" where
  "createWith saveThrows m options =
     (let i = opt_id options;
          cols = (case opt_cols options of None \<Rightarrow> 80 | Some c \<Rightarrow> c);
          rows = (case opt_rows options of None \<Rightarrow> 24 | Some c \<Rightarrow> c)
      in if map_of (terminals m) i \<noteq> None then (okResult, m)
         else
           (case spawnThrows m of
              Some e \<Rightarrow> (failResult (messageOr e (ascii ''Failed to create terminal'')), m)
            | None \<Rightarrow>
                (let r = nextRef m;
                     terminalCwd = orElse (opt_cwd options) (homedir m);
                     terminal =
                       \<lparr>tid = i, pty = r, isClaudeMode = False,
                        projectPath = opt_projectPath options, cwd = terminalCwd,
                        claudeSessionId = None, outputBuffer = [],
                        title = ascii ''Terminal '' @ showNat (length (terminals m) + 1)\<rparr>;
                     m1 = m\<lparr>ptyCalls := ptyCalls m @ [(r, Spawn cols rows terminalCwd)],
                            nextRef := r + 1,
                            heap := (heap m)(r := terminal),
                            terminals := terminals m @ [(i, r)]\<rparr>
                 in case opt_projectPath options of
                      None \<Rightarrow> (okResult, m1)
                    | Some path \<Rightarrow>
                        if path = [] then (okResult, m1)
                        else
                          (case saveThrows of
                             Some e \<Rightarrow>
                               (failResult (messageOr e (ascii ''Failed to create terminal'')), m1)
                           | None \<Rightarrow>
                               (okResult,
                                saveSession m1
                                  \<lparr>session_id = i,
                                   session_title = title terminal,
                                   session_cwd = terminalCwd,
                                   session_projectPath = path,
                                   session_isClaudeMode = False,
                                   session_claudeSessionId = None,
                                   session_outputBuffer = [],
                                   createdAt = now m1,
                                   lastActiveAt = now m1\<rparr>)))))"

text \<open>
  \<open>create\<close> with a store whose calls return, as the store is taken everywhere else.
\<close>

definition create :: "TerminalManager \<Rightarrow> TerminalCreateOptions \<Rightarrow> Result \<times> TerminalManager" where
  "create m options = createWith None m options"

subsection \<open>destroy, write, resize, setTitle\<close>

text \<open>The method \<open>write\<close> is called \<open>write_terminal\<close> here.\<close>

definition destroy :: "TerminalManager \<Rightarrow> jsstring \<Rightarrow> Result \<times> TerminalManager" where
  "destroy m i =
     (case map_of (terminals m) i of
        None \<Rightarrow> (failResult (ascii ''Terminal not found''), m)
      | Some r \<Rightarrow>
          (let terminal = heap m r;
               m1 = (case projectPath terminal of
                       None \<Rightarrow> m
                     | Some path \<Rightarrow> if path = [] then m else removeSession m path i)
           in case ptyKill m1 (pty terminal) of
                (Some e, m2) \<Rightarrow> (failResult (messageOr e (ascii ''Failed to destroy terminal'')), m2)
              | (None, m2) \<Rightarrow> (okResult, m2\<lparr>terminals := deleteKey i (terminals m2)\<rparr>)))"

definition write_terminal :: "TerminalManager \<Rightarrow> jsstring \<Rightarrow> jsstring \<Rightarrow> TerminalManager" where
  "write_terminal m i data =
     (case map_of (terminals m) i of None \<Rightarrow> m | Some r \<Rightarrow> ptyWrite m (pty (heap m r)) data)"

definition resize :: "TerminalManager \<Rightarrow> jsstring \<Rightarrow> nat \<Rightarrow> nat \<Rightarrow> TerminalManager" where
  "resize m i cols rows =
     (case map_of (terminals m) i of None \<Rightarrow> m | Some r \<Rightarrow> ptyResize m (pty (heap m r)) cols rows)"

definition setTitle :: "TerminalManager \<Rightarrow> jsstring \<Rightarrow> jsstring \<Rightarrow> TerminalManager" where
  "setTitle m i newTitle =
     (case map_of (terminals m) i of
        None \<Rightarrow> m
      | Some r \<Rightarrow> update m r (\<lambda>t. t\<lparr>title := newTitle\<rparr>))"

subsection \<open>Polling capture\<close>

definition maxAttempts :: nat where
  "maxAttempts = 10"

text \<open>
  \<open>captureClaudeSessionId\<close> arms a timer of 2000 ms for \<open>checkForSession\<close>, unless the
  terminal is unknown; the result is the closure that the timer will run.
\<close>

definition captureClaudeSessionId ::
  "TerminalManager \<Rightarrow> jsstring \<Rightarrow> jsstring \<Rightarrow> int \<Rightarrow> CaptureTask option" where
  "captureClaudeSessionId m i path start =
     (case map_of (terminals m) i of
        None \<Rightarrow> None
      | Some r \<Rightarrow>
          Some \<lparr>terminalId = i, taskPath = path, startTime = start, attempts = 0,
                due = now m + 2000\<rparr>)"

text \<open>
  One run of \<open>checkForSession\<close>: the new state, and the closure with which the timer
  is armed again (after 1000 ms), if it is.
\<close>

definition checkForSession ::
  "TerminalManager \<Rightarrow> CaptureTask \<Rightarrow> TerminalManager \<times> CaptureTask option" where
  "checkForSession m task =
     (let n = attempts task + 1 in
      case map_of (terminals m) (terminalId task) of
        None \<Rightarrow> (m, None)
      | Some r \<Rightarrow>
          if \<not> isClaudeMode (heap m r) then (m, None)
          else if truthy (claudeSessionId (heap m r)) then (m, None)
          else
            (case findClaudeSessionAfter (claudeDir m) (taskPath task) (startTime task) of
               Some sessionId \<Rightarrow>
                 if sessionId \<noteq> [] then (adoptSessionId m r (terminalId task) sessionId, None)
                 else if n < maxAttempts then (m, Some (task\<lparr>attempts := n, due := now m + 1000\<rparr>))
                 else (m, None)
             | None \<Rightarrow>
                 if n < maxAttempts then (m, Some (task\<lparr>attempts := n, due := now m + 1000\<rparr>))
                 else (m, None)))"

subsection \<open>invokeClaude and resumeClaude\<close>

definition invokeClaude ::
  "TerminalManager \<Rightarrow> jsstring \<Rightarrow> jsstring option \<Rightarrow> TerminalManager \<times> CaptureTask option" where
  "invokeClaude m i dir =
     (case map_of (terminals m) i of
        None \<Rightarrow> (m, None)
      | Some r \<Rightarrow>
          (let m1 = update m r (\<lambda>t. t\<lparr>isClaudeMode := True, claudeSessionId := None\<rparr>);
               terminal = heap m1 r;
               start = now m1;
               path = orElse dir (orElse (projectPath terminal) (cwd terminal));
               cwdCommand = (case dir of
                               None \<Rightarrow> []
                             | Some d \<Rightarrow> if d = [] then []
                                         else ascii ''cd '' @ [34] @ d @ [34] @ ascii '' && '');
               m2 = ptyWrite m1 (pty terminal) (cwdCommand @ ascii ''claude'' @ [13]);
               m3 = send m2 (TERMINAL_TITLE_CHANGE i (ascii ''Claude''));
               m4 = (case projectPath terminal of
                       None \<Rightarrow> m3
                     | Some p \<Rightarrow>
                         if p = [] then m3
                         else (case getSession m3 p i of
                                 None \<Rightarrow> m3
                               | Some session \<Rightarrow>
                                   saveSession m3
                                     (session\<lparr>session_isClaudeMode := True,
                                              lastActiveAt := now m3\<rparr>)))
           in (m4, if path = [] then None else captureClaudeSessionId m4 i path start)))"

definition resumeClaude :: "TerminalManager \<Rightarrow> jsstring \<Rightarrow> jsstring option \<Rightarrow> TerminalManager" where
  "resumeClaude m i sessionId =
     (case map_of (terminals m) i of
        None \<Rightarrow> m
      | Some r \<Rightarrow>
          (let m1 = update m r (\<lambda>t. t\<lparr>isClaudeMode := True\<rparr>);
               withId = truthy sessionId;
               command = (case sessionId of
                            None \<Rightarrow> ascii ''claude --continue''
                          | Some s \<Rightarrow> if s = [] then ascii ''claude --continue''
                                      else ascii ''claude --resume '' @ [34] @ s @ [34]);
               m2 = (if withId then update m1 r (\<lambda>t. t\<lparr>claudeSessionId := sessionId\<rparr>) else m1);
               m3 = ptyWrite m2 (pty (heap m2 r)) (command @ [13])
           in send m3 (TERMINAL_TITLE_CHANGE i (ascii ''Claude''))))"

subsection \<open>restore\<close>

text \<open>
  \<open>restore\<close> suspends once, at \<open>await new Promise(resolve => setTimeout(resolve, 1000))\<close>.
  \<open>restoreBegin\<close> is the part before that point: it ends with the result that is
  returned (\<open>Inl\<close>), or suspended, holding the reference in the variable \<open>terminal\<close>
  (\<open>Inr\<close>). \<open>restoreResume\<close> is the part that runs when the delay is over, in the state
  of that moment. In \<open>restore\<close> the argument \<open>settle\<close> stands for everything that happens
  to the state during the delay, the advance of the clock included.
\<close>

definition restoreOk :: "TerminalSession \<Rightarrow> RestoreResult" where
  "restoreOk session =
     \<lparr>success = True, error = None, replayBuffer = Some (session_outputBuffer session)\<rparr>"

definition restoreBegin ::
  "TerminalManager \<Rightarrow> TerminalSession \<Rightarrow> nat \<Rightarrow> nat
     \<Rightarrow> (RestoreResult \<times> TerminalManager) + (nat \<times> TerminalManager)" where
  "restoreBegin m session cols rows =
     (case create m \<lparr>opt_id = session_id session, opt_cwd = Some (session_cwd session),
                     opt_cols = Some cols, opt_rows = Some rows,
                     opt_projectPath = Some (session_projectPath session)\<rparr> of
        (result, m1) \<Rightarrow>
          if \<not> success result
          then Inl (\<lparr>success = success result, error = error result, replayBuffer = None\<rparr>, m1)
          else
            (case map_of (terminals m1) (session_id session) of
               None \<Rightarrow>
                 Inl (\<lparr>success = False, error = Some (ascii ''Terminal not found after creation''),
                       replayBuffer = None\<rparr>, m1)
             | Some r \<Rightarrow>
                 (let m2 = update m1 r (\<lambda>t. t\<lparr>title := session_title session\<rparr>) in
                  if session_isClaudeMode session then Inr (r, m2)
                  else Inl (restoreOk session, m2))))"

definition restoreResume ::
  "TerminalManager \<Rightarrow> nat \<Rightarrow> TerminalSession
     \<Rightarrow> RestoreResult \<times> TerminalManager \<times> CaptureTask option" where
  "restoreResume m r session =
     (let m4 = update m r
                 (\<lambda>t. t\<lparr>isClaudeMode := True,
                        claudeSessionId := session_claudeSessionId session\<rparr>);
          projectDir = orElse (Some (session_cwd session)) (session_projectPath session);
          start = now m4;
          resumeCommand =
            (case session_claudeSessionId session of
               None \<Rightarrow> ascii ''clear && cd '' @ [34] @ projectDir @ [34]
                         @ ascii '' && claude --resume''
             | Some s \<Rightarrow>
                 if s = [] then ascii ''clear && cd '' @ [34] @ projectDir @ [34]
                                @ ascii '' && claude --resume''
                 else ascii ''clear && cd '' @ [34] @ projectDir @ [34]
                        @ ascii '' && claude --resume '' @ [34] @ s @ [34]);
          m5 = ptyWrite m4 (pty (heap m4 r)) (resumeCommand @ [13]);
          m6 = send m5 (TERMINAL_TITLE_CHANGE (session_id session) (ascii ''Claude''))
      in (restoreOk session, m6,
          if \<not> truthy (session_claudeSessionId session) \<and> projectDir \<noteq> []
          then captureClaudeSessionId m6 (session_id session) projectDir start
          else None))"

definition restore ::
  "(TerminalManager \<Rightarrow> TerminalManager) \<Rightarrow> TerminalManager \<Rightarrow> TerminalSession \<Rightarrow> nat \<Rightarrow> nat
     \<Rightarrow> RestoreResult \<times> TerminalManager \<times> CaptureTask option" where
  "restore settle m session cols rows =
     (case restoreBegin m session cols rows of
        Inl (result, m1) \<Rightarrow> (result, m1, None)
      | Inr (r, m2) \<Rightarrow> restoreResume (settle m2) r session)"

subsection \<open>Saved sessions\<close>

text \<open>
  \<open>clearSavedSessions\<close> hands over to the store (\<open>getSavedSessions\<close> only reads it).
  Modelled from the spec: \<open>clearProjectSessions\<close> of the store removes the records of
  one project path.
\<close>

definition clearSavedSessions :: "TerminalManager \<Rightarrow> jsstring \<Rightarrow> TerminalManager" where
  "clearSavedSessions m path = m\<lparr>store := (\<lambda>k. if fst k = path then None else store m k)\<rparr>"

subsection \<open>killAll\<close>

definition killOne :: "TerminalManager \<Rightarrow> nat \<Rightarrow> TerminalManager" where
  "killOne m r = snd (ptyKill m (pty (heap m r)))"

definition killAll :: "TerminalManager \<Rightarrow> TerminalManager" where
  "killAll m =
     (let m1 = persistAllSessions m;
          m2 = (case saveTimer m1 of None \<Rightarrow> m1 | Some t \<Rightarrow> m1\<lparr>saveTimer := None\<rparr>);
          m3 = foldl killOne m2 (map snd (terminals m2))
      in m3\<lparr>terminals := []\<rparr>)"

section \<open>Runs\<close>

text \<open>
  A sequence of output chunks delivered to the handler of one pty; each chunk comes with
  the reading of the clock at its arrival.
\<close>

fun feed :: "TerminalManager \<Rightarrow> nat \<Rightarrow> (int \<times> jsstring) list \<Rightarrow> TerminalManager" where
  "feed m r [] = m"
| "feed m r (c # rest) = feed (onData (m\<lparr>now := fst c\<rparr>) r (snd c)) r rest"

text \<open>
  The chain of timers of one polling capture, run to its end: \<open>between task m\<close> is the
  state in which the pending timer of \<open>task\<close> finally fires, after whatever else has
  happened since state \<open>m\<close>. The result counts the runs of \<open>checkForSession\<close>.
\<close>

function pollCapture ::
  "(CaptureTask \<Rightarrow> TerminalManager \<Rightarrow> TerminalManager) \<Rightarrow> TerminalManager \<Rightarrow> CaptureTask
     \<Rightarrow> TerminalManager \<times> nat" where
  "pollCapture between m task =
     (case checkForSession (between task m) task of
        (m', None) \<Rightarrow> (m', 1)
      | (m', Some task') \<Rightarrow>
          (case pollCapture between m' task' of (m'', k) \<Rightarrow> (m'', Suc k)))"
  by pat_completeness auto
termination
  apply (relation "measure (\<lambda>(between, m, task). maxAttempts - attempts task)")
   apply (auto simp: checkForSession_def Let_def split: option.splits if_splits)
  done

declare pollCapture.simps [simp del]

section \<open>Example states and auxiliary notions\<close>

text \<open>A world to run examples in: a window exists, nothing is thrown, the file system is empty.\<close>

definition blankTerminal :: TerminalProcess where
  "blankTerminal =
     \<lparr>tid = [], pty = 0, isClaudeMode = False, projectPath = None, cwd = [],
      claudeSessionId = None, outputBuffer = [], title = []\<rparr>"

definition exampleWorld :: TerminalManager where
  "exampleWorld =
     \<lparr>terminals = [], saveTimer = None, rateLimitNotifiedAt = Map.empty,
      heap = (\<lambda>_. blankTerminal), nextRef = 0, store = Map.empty, window = True, sent = [],
      ptyCalls = [], spawnThrows = None, killThrows = (\<lambda>_. None), now = 100000,
      homedir = ascii ''/home/u'', claudeDir = (\<lambda>_. None)\<rparr>"

definition exampleOptions :: TerminalCreateOptions where
  "exampleOptions =
     \<lparr>opt_id = ascii ''t1'', opt_cwd = Some (ascii ''/tmp''), opt_cols = None, opt_rows = None,
      opt_projectPath = Some (ascii ''/proj'')\<rparr>"

text \<open>The same world with a pty primitive whose \<open>kill\<close> throws.\<close>

definition throwingWorld :: TerminalManager where
  "throwingWorld = exampleWorld\<lparr>killThrows := (\<lambda>_. Some (Error (ascii ''kill EPERM'')))\<rparr>"


text \<open>
  Well-formedness of the registry: the keys are distinct, every key is the \<open>id\<close> of the
  object it refers to, and every reference has been allocated.
\<close>

definition registryOk :: "TerminalManager \<Rightarrow> bool" where
  "registryOk m =
     (distinct (map fst (terminals m))
      \<and> (\<forall>e\<in>set (terminals m). tid (heap m (snd e)) = fst e \<and> snd e < nextRef m))"

text \<open>The example of a rate-limit notice, and a state that has seen it in assistant mode.\<close>

definition rateLimitChunk :: jsstring where
  "rateLimitChunk = ascii ''Limit reached '' @ [0xB7] @ ascii '' resets Dec 17 at 6am (Europe/Oslo)''"

definition claudeExample :: TerminalManager where
  "claudeExample =
     fst (invokeClaude (snd (create (newTerminalManager exampleWorld) exampleOptions)) (ascii ''t1'') None)"

definition limitedExample :: TerminalManager where
  "limitedExample = onData claudeExample 0 rateLimitChunk"

text \<open>\<open>this.rateLimitNotifiedAt.get(id) || 0\<close>, and the rate-limit messages among those sent.\<close>

definition lastNotified :: "TerminalManager \<Rightarrow> jsstring \<Rightarrow> int" where
  "lastNotified m i = (case rateLimitNotifiedAt m i of None \<Rightarrow> 0 | Some t \<Rightarrow> t)"

fun isRateLimit :: "ipc \<Rightarrow> bool" where
  "isRateLimit (TERMINAL_RATE_LIMIT i resetTime detectedAt) = True"
| "isRateLimit e = False"

definition rateLimits :: "TerminalManager \<Rightarrow> ipc list" where
  "rateLimits m = filter isRateLimit (sent m)"

definition createdExample :: TerminalManager where
  "createdExample = snd (create (newTerminalManager exampleWorld) exampleOptions)"

text \<open>A world in which the session directory of \<open>/proj\<close> holds three files.\<close>

definition scanWorld :: TerminalManager where
  "scanWorld =
     exampleWorld\<lparr>claudeDir :=
       (\<lambda>p. if p = ascii ''/proj''
            then Some [(ascii ''old.jsonl'', Some 99000), (ascii ''s-42.jsonl'', Some 100500),
                       (ascii ''notes.txt'', Some 200000)]
            else None)\<rparr>"

text \<open>Nothing else happens between two probes; a timer fires when it is due.\<close>

definition idle :: "CaptureTask \<Rightarrow> TerminalManager \<Rightarrow> TerminalManager" where
  "idle task m = m\<lparr>now := due task\<rparr>"

text \<open>A persisted session in assistant mode whose assistant session id is not known.\<close>

definition pickerSession :: TerminalSession where
  "pickerSession =
     \<lparr>session_id = ascii ''t1'', session_title = ascii ''build'', session_cwd = ascii ''/proj'',
      session_projectPath = ascii ''/proj'', session_isClaudeMode = True,
      session_claudeSessionId = None, session_outputBuffer = ascii ''$ '',
      createdAt = 90000, lastActiveAt = 95000\<rparr>"

text \<open>
  What can happen on the automatic discovery paths: an output chunk arrives at the handler
  of a pty, a probe of a polling capture runs, the clock advances, the files change.
\<close>

datatype discovery =
    Chunk nat jsstring
  | Probe CaptureTask
  | Tick int
  | Files "jsstring \<Rightarrow> (jsstring \<times> int option) list option"

fun discover :: "TerminalManager \<Rightarrow> discovery \<Rightarrow> TerminalManager" where
  "discover m (Chunk r data) = onData m r data"
| "discover m (Probe task) = fst (checkForSession m task)"
| "discover m (Tick t) = m\<lparr>now := t\<rparr>"
| "discover m (Files fs) = m\<lparr>claudeDir := fs\<rparr>"

text \<open>A terminal whose session id was found in its output, and a persisted session with another id.\<close>

definition discoveredExample :: TerminalManager where
  "discoveredExample = onData claudeExample 0 (ascii ''Session: abc-123'')"

definition savedSession :: TerminalSession where
  "savedSession = pickerSession\<lparr>session_claudeSessionId := Some (ascii ''old-9'')\<rparr>"

section \<open>Basic facts\<close>

lemma sliceLast_append_sliceLast:
  "sliceLast n (sliceLast n a @ b) = sliceLast n (a @ b)"
proof (cases "length a \<le> n")
  case True
  then show ?thesis by (simp add: sliceLast_def)
next
  case False
  then have "length (drop (length a - n) a) = n" by simp
  then show ?thesis using False
    by (simp add: sliceLast_def add.commute)
qed

lemma length_sliceLast: "length (sliceLast n s) \<le> n"
  by (simp add: sliceLast_def)

lemma heap_send [simp]: "heap (send m e) = heap m"
  by (simp add: send_def)

lemma heap_updateClaudeSessionId [simp]: "heap (updateClaudeSessionId m p i s) = heap m"
  by (simp add: updateClaudeSessionId_def split: option.splits)

lemma heap_saveSession [simp]: "heap (saveSession m s) = heap m"
  by (simp add: saveSession_def)

lemma heap_removeSession [simp]: "heap (removeSession m p i) = heap m"
  by (simp add: removeSession_def)

lemma heap_ptyWrite [simp]: "heap (ptyWrite m p d) = heap m"
  by (simp add: ptyWrite_def)

lemma heap_adoptSessionId:
  "heap (adoptSessionId m r i s) = (heap m)(r := (heap m r)\<lparr>claudeSessionId := Some s\<rparr>)"
  by (simp add: adoptSessionId_def update_def Let_def split: option.splits)

lemma heap_checkRateLimit [simp]: "heap (checkRateLimit m r d) = heap m"
  by (simp add: checkRateLimit_def Let_def split: option.splits)

lemma heap_captureFromOutput:
  "heap (captureFromOutput m r d) = heap m
   \<or> (\<exists>s. s \<noteq> [] \<and> isClaudeMode (heap m r) \<and> \<not> truthy (claudeSessionId (heap m r))
          \<and> extractClaudeSessionId d = Some s
          \<and> heap (captureFromOutput m r d) = (heap m)(r := (heap m r)\<lparr>claudeSessionId := Some s\<rparr>))"
  by (simp add: captureFromOutput_def heap_adoptSessionId split: option.splits)

lemma outputBuffer_captureFromOutput [simp]:
  "outputBuffer (heap (captureFromOutput m r d) r') = outputBuffer (heap m r')"
  using heap_captureFromOutput [of m r d] by auto

section \<open>The output buffer\<close>

lemma outputBuffer_onData:
  "outputBuffer (heap (onData m r d) r) = sliceLast 100000 (outputBuffer (heap m r) @ d)"
  by (simp add: onData_def Let_def appendOutput_def update_def)

lemma outputBuffer_feed:
  "outputBuffer (heap (feed m r chunks) r)
     = (if chunks = [] then outputBuffer (heap m r)
        else sliceLast 100000 (outputBuffer (heap m r) @ concat (map snd chunks)))"
proof (induction chunks arbitrary: m)
  case Nil
  then show ?case by simp
next
  case (Cons c rest)
  show ?case
    by (simp add: Cons.IH outputBuffer_onData sliceLast_append_sliceLast)
qed

lemma create_fresh:
  assumes "map_of (terminals m) (opt_id options) = None" and "spawnThrows m = None"
  shows "fst (create m options) = okResult"
    and "terminals (snd (create m options)) = terminals m @ [(opt_id options, nextRef m)]"
    and "heap (snd (create m options)) =
           (heap m)(nextRef m :=
              \<lparr>tid = opt_id options, pty = nextRef m, isClaudeMode = False,
               projectPath = opt_projectPath options,
               cwd = orElse (opt_cwd options) (homedir m),
               claudeSessionId = None, outputBuffer = [],
               title = ascii ''Terminal '' @ showNat (length (terminals m) + 1)\<rparr>)"
  using assms by (simp_all add: create_def createWith_def Let_def saveSession_def split: option.splits)

text \<open>
  Claim C1. Whatever the state and the terminal object, after every append of an output
  chunk the buffer holds at most 100000 code units and is the trailing slice of that
  length of what it held before followed by all the chunks delivered since, in order.
  A terminal that \<open>create\<close> has just registered starts with the empty buffer, so that its
  buffer is always the trailing slice of the concatenation of all chunks it has received.
\<close>

theorem outputBuffer_trailing_slice:
  "length (outputBuffer (heap (feed m r (chunks @ [c])) r)) \<le> 100000
   \<and> outputBuffer (heap (feed m r (chunks @ [c])) r)
       = sliceLast 100000 (outputBuffer (heap m r) @ concat (map snd (chunks @ [c])))
   \<and> (map_of (terminals m) (opt_id options) = None \<longrightarrow> spawnThrows m = None \<longrightarrow>
        map_of (terminals (snd (create m options))) (opt_id options) = Some (nextRef m)
        \<and> length (outputBuffer (heap (feed (snd (create m options)) (nextRef m) received) (nextRef m)))
            \<le> 100000
        \<and> outputBuffer (heap (feed (snd (create m options)) (nextRef m) received) (nextRef m))
            = sliceLast 100000 (concat (map snd received)))"
proof -
  have a: "outputBuffer (heap (feed m r (chunks @ [c])) r)
             = sliceLast 100000 (outputBuffer (heap m r) @ concat (map snd (chunks @ [c])))"
    by (simp add: outputBuffer_feed)
  have b: "length (outputBuffer (heap (feed m r (chunks @ [c])) r)) \<le> 100000"
    unfolding a by (rule length_sliceLast)
  have c: "map_of (terminals (snd (create m options))) (opt_id options) = Some (nextRef m)
        \<and> length (outputBuffer (heap (feed (snd (create m options)) (nextRef m) received) (nextRef m)))
            \<le> 100000
        \<and> outputBuffer (heap (feed (snd (create m options)) (nextRef m) received) (nextRef m))
            = sliceLast 100000 (concat (map snd received))"
    if fresh: "map_of (terminals m) (opt_id options) = None" and ok: "spawnThrows m = None"
  proof -
    have e: "outputBuffer (heap (snd (create m options)) (nextRef m)) = []"
      by (simp add: create_fresh(3) [OF fresh ok])
    have f: "outputBuffer (heap (feed (snd (create m options)) (nextRef m) received) (nextRef m))
               = sliceLast 100000 (concat (map snd received))"
      by (simp add: outputBuffer_feed e sliceLast_def)
    have g: "map_of (terminals (snd (create m options))) (opt_id options) = Some (nextRef m)"
      using fresh by (simp add: create_fresh(2) [OF fresh ok] map_add_def)
    show ?thesis unfolding f using g by (simp add: length_sliceLast)
  qed
  show ?thesis using a b c by blast
qed

theorem outputBuffer_trailing_slice_witness:
  "map_of (terminals (newTerminalManager exampleWorld)) (opt_id exampleOptions) = None
   \<and> spawnThrows (newTerminalManager exampleWorld) = None
   \<and> outputBuffer (heap (feed (snd (create (newTerminalManager exampleWorld) exampleOptions)) 0
        [(1, ascii ''ab''), (2, ascii ''cd'')]) 0) = ascii ''abcd''"
proof -
  have fresh: "map_of (terminals (newTerminalManager exampleWorld)) (opt_id exampleOptions) = None"
    by (simp add: newTerminalManager_def)
  have ok: "spawnThrows (newTerminalManager exampleWorld) = None"
    by (simp add: newTerminalManager_def exampleWorld_def)
  have r: "nextRef (newTerminalManager exampleWorld) = 0"
    by (simp add: newTerminalManager_def exampleWorld_def)
  show ?thesis
    using outputBuffer_trailing_slice [of "newTerminalManager exampleWorld" 0 "[]" "(1, [])"
        exampleOptions "[(1, ascii ''ab''), (2, ascii ''cd'')]"] fresh ok r
    by (simp add: sliceLast_def ascii_def)
qed

section \<open>Session-id extraction\<close>

lemma starGreedy_run:
  "s' \<in> set (starGreedy p s) \<Longrightarrow> \<exists>t. s = t @ s' \<and> (\<forall>x\<in>set t. p x)"
proof (induction s)
  case Nil
  then show ?case by simp
next
  case (Cons c cs)
  show ?case
  proof (cases "s' = c # cs")
    case True
    then show ?thesis by simp
  next
    case False
    with Cons.prems have "p c" and "s' \<in> set (starGreedy p cs)"
      by (auto split: if_splits)
    with Cons.IH obtain t where "cs = t @ s'" and "\<forall>x\<in>set t. p x" by blast
    then have "c # cs = (c # t) @ s' \<and> (\<forall>x\<in>set (c # t). p x)" using \<open>p c\<close> by simp
    then show ?thesis by blast
  qed
qed

lemma plusGreedy_run:
  "s' \<in> set (plusGreedy p s) \<Longrightarrow> \<exists>t. s = t @ s' \<and> t \<noteq> [] \<and> (\<forall>x\<in>set t. p x)"
proof (cases s)
  case Nil
  assume "s' \<in> set (plusGreedy p s)"
  with Nil show ?thesis by simp
next
  case (Cons c cs)
  assume "s' \<in> set (plusGreedy p s)"
  with Cons have "p c" and "s' \<in> set (starGreedy p cs)" by (auto split: if_splits)
  then obtain t where "cs = t @ s'" and "\<forall>x\<in>set t. p x" using starGreedy_run by blast
  then have "s = (c # t) @ s' \<and> c # t \<noteq> [] \<and> (\<forall>x\<in>set (c # t). p x)"
    using \<open>p c\<close> Cons by simp
  then show ?thesis by blast
qed

lemma ms_token:
  assumes "x \<in> set (ms token st)"
  shows "\<exists>t. snd x = Some t \<and> t \<noteq> [] \<and> (\<forall>c\<in>set t. isTokenChar c)"
proof -
  obtain s g where st: "st = (s, g)" by (cases st)
  from assms obtain s' where s': "s' \<in> set (plusGreedy isTokenChar s)"
    and x: "x = (s', Some (take (length s - length s') s))"
    by (auto simp: token_def st)
  from plusGreedy_run [OF s'] obtain t where "s = t @ s'" "t \<noteq> []" "\<forall>c\<in>set t. isTokenChar c"
    by blast
  then show ?thesis using x by simp
qed

lemma ms_literal_last:
  "x \<in> set (ms (literal f cs r) st) \<Longrightarrow> \<exists>st'. x \<in> set (ms r st')"
  by (induction cs arbitrary: st) auto

lemma ms_Seq_last: "x \<in> set (ms (Seq a b) st) \<Longrightarrow> \<exists>st'. x \<in> set (ms b st')"
  by auto

lemma ms_session_pattern:
  assumes "p \<in> set CLAUDE_SESSION_PATTERNS" and "x \<in> set (ms p st)"
  shows "\<exists>st'. x \<in> set (ms token st')"
proof -
  from assms(1) consider "p = pat_session_label" | "p = pat_session_id" | "p = pat_resuming"
    | "p = pat_conversation_id"
    by (auto simp: CLAUDE_SESSION_PATTERNS_def)
  then show ?thesis
  proof cases
    case 1
    with assms(2) show ?thesis
      unfolding pat_session_label_def
      by (blast dest: ms_literal_last ms_Seq_last)
  next
    case 2
    with assms(2) show ?thesis
      unfolding pat_session_id_def
      by (blast dest: ms_literal_last ms_Seq_last)
  next
    case 3
    with assms(2) show ?thesis
      unfolding pat_resuming_def
      by (blast dest: ms_literal_last ms_Seq_last)
  next
    case 4
    with assms(2) show ?thesis
      unfolding pat_conversation_id_def
      by (blast dest: ms_literal_last ms_Seq_last)
  qed
qed

lemma match_Some:
  "match d r = Some g \<Longrightarrow> \<exists>s st. st \<in> set (ms r (s, None)) \<and> snd st = g"
proof (induction d)
  case Nil
  show ?case
  proof (cases "ms r ([], None)")
    case Nil
    with Nil.prems show ?thesis by simp
  next
    case (Cons st rest)
    with Nil.prems have "snd st = g" by (cases st) simp
    moreover have "st \<in> set (ms r ([], None))" using Cons by simp
    ultimately show ?thesis by blast
  qed
next
  case (Cons c cs)
  show ?case
  proof (cases "ms r (c # cs, None)")
    case Nil
    with Cons show ?thesis by simp
  next
    case (Cons st rest)
    with Cons.prems have "snd st = g" by (cases st) simp
    moreover have "st \<in> set (ms r (c # cs, None))" using Cons by simp
    ultimately show ?thesis by blast
  qed
qed

lemma match_session_pattern:
  assumes "p \<in> set CLAUDE_SESSION_PATTERNS" and "match d p = Some g"
  shows "\<exists>t. g = Some t \<and> t \<noteq> [] \<and> (\<forall>c\<in>set t. isTokenChar c)"
  using match_Some [OF assms(2)] ms_session_pattern [OF assms(1)] ms_token by metis


lemma firstMatch_cascade:
  "extractClaudeSessionId d =
     (case match d pat_session_label of
        Some g \<Rightarrow> g
      | None \<Rightarrow>
          (case match d pat_session_id of
             Some g \<Rightarrow> g
           | None \<Rightarrow>
               (case match d pat_resuming of
                  Some g \<Rightarrow> g
                | None \<Rightarrow> (case match d pat_conversation_id of Some g \<Rightarrow> g | None \<Rightarrow> None))))"
proof -
  have t: "\<And>p g. p \<in> set CLAUDE_SESSION_PATTERNS \<Longrightarrow> match d p = Some g \<Longrightarrow> \<exists>t. g = Some t \<and> t \<noteq> []"
    using match_session_pattern by blast
  have 1: "\<And>g. match d pat_session_label = Some g \<Longrightarrow> \<exists>t. g = Some t \<and> t \<noteq> []"
    by (rule t) (simp_all add: CLAUDE_SESSION_PATTERNS_def)
  have 2: "\<And>g. match d pat_session_id = Some g \<Longrightarrow> \<exists>t. g = Some t \<and> t \<noteq> []"
    by (rule t) (simp_all add: CLAUDE_SESSION_PATTERNS_def)
  have 3: "\<And>g. match d pat_resuming = Some g \<Longrightarrow> \<exists>t. g = Some t \<and> t \<noteq> []"
    by (rule t) (simp_all add: CLAUDE_SESSION_PATTERNS_def)
  have 4: "\<And>g. match d pat_conversation_id = Some g \<Longrightarrow> \<exists>t. g = Some t \<and> t \<noteq> []"
    by (rule t) (simp_all add: CLAUDE_SESSION_PATTERNS_def)
  show ?thesis
    unfolding extractClaudeSessionId_def CLAUDE_SESSION_PATTERNS_def
    by (auto split: option.splits dest: 1 2 3 4)
qed


lemma match_found: "match d r \<noteq> None \<Longrightarrow> \<exists>k. ms r (drop k d, None) \<noteq> []"
proof (induction d)
  case Nil
  then have "ms r (drop 0 [], None) \<noteq> []" by (auto split: list.splits)
  then show ?case by blast
next
  case (Cons c cs)
  show ?case
  proof (cases "ms r (c # cs, None) = []")
    case True
    with Cons.prems have "match cs r \<noteq> None" by simp
    with Cons.IH obtain k where "ms r (drop k cs, None) \<noteq> []" by blast
    then have "ms r (drop (Suc k) (c # cs), None) \<noteq> []" by simp
    then show ?thesis by blast
  next
    case False
    then have "ms r (drop 0 (c # cs), None) \<noteq> []" by simp
    then show ?thesis by blast
  qed
qed

lemma found_match: "ms r (drop k d, None) \<noteq> [] \<Longrightarrow> match d r \<noteq> None"
proof (induction d arbitrary: k)
  case Nil
  then show ?case by (auto split: list.splits)
next
  case (Cons c cs)
  show ?case
  proof (cases k)
    case 0
    with Cons.prems show ?thesis by (auto split: list.splits)
  next
    case (Suc j)
    with Cons.prems have "ms r (drop j cs, None) \<noteq> []" by simp
    then have "match cs r \<noteq> None" by (rule Cons.IH)
    then show ?thesis by (auto split: list.splits)
  qed
qed

lemma ms_Chr_Seq:
  "ms (Seq (Chr p) r) (s, g) = (case s of [] \<Rightarrow> [] | c # cs \<Rightarrow> if p c then ms r (cs, g) else [])"
  by (simp split: list.splits)

lemma upper_colon: "upper x = upper 58 \<Longrightarrow> x = 58"
  by (auto simp: upper_def split: if_splits)

lemma resuming_implies_label:
  assumes "ms pat_resuming (s, None) \<noteq> []"
  shows "ms pat_session_label (drop 9 s, None) \<noteq> []"
proof -
  from assms obtain x1 x2 x3 x4 x5 x6 x7 x8 x9 y1 y2 y3 y4 y5 y6 y7 y8 rest where
    s: "s = x1 # x2 # x3 # x4 # x5 # x6 # x7 # x8 # x9 # y1 # y2 # y3 # y4 # y5 # y6 # y7 # y8 # rest"
    and y: "upper y1 = upper 115" "upper y2 = upper 101" "upper y3 = upper 115" "upper y4 = upper 115"
       "upper y5 = upper 105" "upper y6 = upper 111" "upper y7 = upper 110" "upper y8 = upper 58"
    and r: "ms (Seq (Star isSpace) token) (rest, None) \<noteq> []"
    unfolding pat_resuming_def ascii_def liti_def
    by (simp add: ms_Chr_Seq del: ms.simps(2) split: list.splits if_splits)
  have "y8 = 58" using y(8) by (rule upper_colon)
  then show ?thesis using y r unfolding s pat_session_label_def ascii_def liti_def lit_def
    by (simp add: upper_def)
qed

lemma resuming_subsumed:
  assumes "match d pat_resuming \<noteq> None"
  shows "match d pat_session_label \<noteq> None"
proof -
  from match_found [OF assms] obtain k where "ms pat_resuming (drop k d, None) \<noteq> []" by blast
  then have "ms pat_session_label (drop 9 (drop k d), None) \<noteq> []" by (rule resuming_implies_label)
  then have "ms pat_session_label (drop (9 + k) d, None) \<noteq> []" by simp
  then show ?thesis by (rule found_match)
qed

lemma specOrder_cascade:
  "firstMatch specOrderPatterns d =
     (case match d pat_session_label of
        Some g \<Rightarrow> g
      | None \<Rightarrow>
          (case match d pat_session_id of
             Some g \<Rightarrow> g
           | None \<Rightarrow>
               (case match d pat_conversation_id of
                  Some g \<Rightarrow> g
                | None \<Rightarrow> (case match d pat_resuming of Some g \<Rightarrow> g | None \<Rightarrow> None))))"
proof -
  have t: "\<And>p g. p \<in> set CLAUDE_SESSION_PATTERNS \<Longrightarrow> match d p = Some g \<Longrightarrow> \<exists>t. g = Some t \<and> t \<noteq> []"
    using match_session_pattern by blast
  have 1: "\<And>g. match d pat_session_label = Some g \<Longrightarrow> \<exists>t. g = Some t \<and> t \<noteq> []"
    by (rule t) (simp_all add: CLAUDE_SESSION_PATTERNS_def)
  have 2: "\<And>g. match d pat_session_id = Some g \<Longrightarrow> \<exists>t. g = Some t \<and> t \<noteq> []"
    by (rule t) (simp_all add: CLAUDE_SESSION_PATTERNS_def)
  have 3: "\<And>g. match d pat_resuming = Some g \<Longrightarrow> \<exists>t. g = Some t \<and> t \<noteq> []"
    by (rule t) (simp_all add: CLAUDE_SESSION_PATTERNS_def)
  have 4: "\<And>g. match d pat_conversation_id = Some g \<Longrightarrow> \<exists>t. g = Some t \<and> t \<noteq> []"
    by (rule t) (simp_all add: CLAUDE_SESSION_PATTERNS_def)
  show ?thesis
    unfolding specOrderPatterns_def
    by (auto split: option.splits dest: 1 2 3 4)
qed

lemma extract_spec_order: "extractClaudeSessionId d = firstMatch specOrderPatterns d"
proof (cases "match d pat_session_label")
  case None
  then have "match d pat_resuming = None" using resuming_subsumed by blast
  with None show ?thesis
    by (simp add: firstMatch_cascade specOrder_cascade split: option.splits)
next
  case (Some g)
  then show ?thesis by (simp add: firstMatch_cascade specOrder_cascade)
qed

lemma extract_token:
  assumes "extractClaudeSessionId d = Some g"
  shows "g \<noteq> [] \<and> (\<forall>c\<in>set g. isTokenChar c)"
proof -
  have "\<exists>p\<in>set CLAUDE_SESSION_PATTERNS. match d p = Some (Some g)"
    using assms unfolding firstMatch_cascade
    by (auto simp: CLAUDE_SESSION_PATTERNS_def split: option.splits)
  then show ?thesis using match_session_pattern by blast
qed

lemma extract_none:
  assumes "\<forall>p\<in>set CLAUDE_SESSION_PATTERNS. match d p = None"
  shows "extractClaudeSessionId d = None"
  using assms by (simp add: firstMatch_cascade CLAUDE_SESSION_PATTERNS_def)

lemmas pattern_defs =
  CLAUDE_SESSION_PATTERNS_def pat_session_label_def pat_session_id_def pat_resuming_def
  pat_conversation_id_def token_def lit_def liti_def upper_def isTokenChar_def isKeySep_def
  isSpace_def isLineTerminator_def ascii_def

text \<open>
  Claim C4. The extractor returns the capture of the first pattern that matches, the
  patterns taken in the order of the code, and this is also the result of taking them in
  the order that the specification words (a chunk that matches the \<open>Resuming session:\<close>
  pattern matches the \<open>Session:\<close> pattern too, so the place of that pattern after the
  first cannot be observed). A returned token is a non-empty run of letters, digits,
  \<open>-\<close> and \<open>_\<close>. \<open>Session: abc-123\<close> gives \<open>abc-123\<close>, \<open>session_id=xy9\<close> gives \<open>xy9\<close>,
  and a chunk that no pattern matches gives nothing.
\<close>

theorem extractClaudeSessionId_first_match:
  "extractClaudeSessionId data = firstMatch specOrderPatterns data
   \<and> extractClaudeSessionId data =
       (case match data pat_session_label of
          Some g \<Rightarrow> g
        | None \<Rightarrow>
            (case match data pat_session_id of
               Some g \<Rightarrow> g
             | None \<Rightarrow>
                 (case match data pat_resuming of
                    Some g \<Rightarrow> g
                  | None \<Rightarrow> (case match data pat_conversation_id of Some g \<Rightarrow> g | None \<Rightarrow> None))))
   \<and> (\<forall>g. extractClaudeSessionId data = Some g \<longrightarrow> g \<noteq> [] \<and> (\<forall>c\<in>set g. isTokenChar c))
   \<and> ((\<forall>p\<in>set CLAUDE_SESSION_PATTERNS. match data p = None) \<longrightarrow> extractClaudeSessionId data = None)
   \<and> extractClaudeSessionId (ascii ''Session: abc-123'') = Some (ascii ''abc-123'')
   \<and> extractClaudeSessionId (ascii ''session_id=xy9'') = Some (ascii ''xy9'')"
proof -
  have a: "extractClaudeSessionId (ascii ''Session: abc-123'') = Some (ascii ''abc-123'')"
    by (simp add: extractClaudeSessionId_def pattern_defs)
  have b: "extractClaudeSessionId (ascii ''session_id=xy9'') = Some (ascii ''xy9'')"
    by (simp add: extractClaudeSessionId_def pattern_defs)
  show ?thesis
    using a b extract_spec_order [of data] firstMatch_cascade [of data] extract_token [of data]
      extract_none [of data]
    by blast
qed

theorem extractClaudeSessionId_first_match_witness:
  "match (ascii ''npm run build: done'') pat_session_label = None
   \<and> match (ascii ''npm run build: done'') pat_session_id = None
   \<and> match (ascii ''npm run build: done'') pat_resuming = None
   \<and> match (ascii ''npm run build: done'') pat_conversation_id = None
   \<and> extractClaudeSessionId (ascii ''npm run build: done'') = None
   \<and> firstMatch specOrderPatterns (ascii ''npm run build: done'') = None"
proof -
  have h: "\<forall>p\<in>set CLAUDE_SESSION_PATTERNS. match (ascii ''npm run build: done'') p = None"
    by (simp add: pattern_defs)
  then have k: "match (ascii ''npm run build: done'') pat_session_label = None
   \<and> match (ascii ''npm run build: done'') pat_session_id = None
   \<and> match (ascii ''npm run build: done'') pat_resuming = None
   \<and> match (ascii ''npm run build: done'') pat_conversation_id = None"
    by (simp add: CLAUDE_SESSION_PATTERNS_def)
  from extractClaudeSessionId_first_match [of "ascii ''npm run build: done''"] h k
  show ?thesis by metis
qed

section \<open>destroy\<close>

lemma map_of_deleteKey: "map_of (deleteKey i ts) j = (if j = i then None else map_of ts j)"
  by (induction ts) (auto simp: deleteKey_def)

lemma destroy_unknown:
  "map_of (terminals m) i = None \<Longrightarrow> destroy m i = (failResult (ascii ''Terminal not found''), m)"
  by (simp add: destroy_def)

lemma destroy_killed:
  assumes "map_of (terminals m) i = Some r" and "killThrows m (pty (heap m r)) = None"
  shows "fst (destroy m i) = okResult"
    and "terminals (snd (destroy m i)) = deleteKey i (terminals m)"
    and "ptyCalls (snd (destroy m i)) = ptyCalls m @ [(pty (heap m r), Kill)]"
    and "store (snd (destroy m i)) =
           (case projectPath (heap m r) of
              None \<Rightarrow> store m
            | Some path \<Rightarrow> if path = [] then store m else (store m)((path, i) := None))"
    and "heap (snd (destroy m i)) = heap m"
  using assms
  by (simp_all add: destroy_def Let_def ptyKill_def removeSession_def split: option.splits)

lemma destroy_kill_throws:
  assumes "map_of (terminals m) i = Some r" and "killThrows m (pty (heap m r)) = Some e"
  shows "fst (destroy m i) = failResult (messageOr e (ascii ''Failed to destroy terminal''))"
    and "terminals (snd (destroy m i)) = terminals m"
    and "ptyCalls (snd (destroy m i)) = ptyCalls m @ [(pty (heap m r), Kill)]"
    and "store (snd (destroy m i)) =
           (case projectPath (heap m r) of
              None \<Rightarrow> store m
            | Some path \<Rightarrow> if path = [] then store m else (store m)((path, i) := None))"
  using assms
  by (simp_all add: destroy_def Let_def ptyKill_def removeSession_def split: option.splits)

lemma example_created:
  "terminals (snd (create (newTerminalManager exampleWorld) exampleOptions)) = [(ascii ''t1'', 0)]"
  "pty (heap (snd (create (newTerminalManager exampleWorld) exampleOptions)) 0) = 0"
  "projectPath (heap (snd (create (newTerminalManager exampleWorld) exampleOptions)) 0) = Some (ascii ''/proj'')"
  "store (snd (create (newTerminalManager exampleWorld) exampleOptions)) (ascii ''/proj'', ascii ''t1'') \<noteq> None"
  by (simp_all add: create_def createWith_def newTerminalManager_def exampleWorld_def exampleOptions_def Let_def saveSession_def ascii_def)

lemmas example_defs =
  create_def createWith_def newTerminalManager_def throwingWorld_def exampleWorld_def exampleOptions_def Let_def
  saveSession_def removeSession_def ptyKill_def failResult_def okResult_def ascii_def

text \<open>
  Claim C2, as the code has it. On an unknown id \<open>destroy\<close> returns the failure
  \<open>Terminal not found\<close> and leaves the state as it is. On a known id it removes the
  persisted record when the terminal has a project path and calls \<open>kill\<close> on the pty.
  When \<open>kill\<close> returns, the in-memory record (and no other) is removed and the result is
  a success. When \<open>kill\<close> throws, the \<open>catch\<close> clause reports a failure that carries the
  message of the error, and the registry is left as it was.
\<close>

theorem destroy_outcomes:
  "(map_of (terminals m) i = None \<longrightarrow> destroy m i = (failResult (ascii ''Terminal not found''), m))
   \<and> (map_of (terminals m) i = Some r \<longrightarrow>
        ptyCalls (snd (destroy m i)) = ptyCalls m @ [(pty (heap m r), Kill)]
        \<and> store (snd (destroy m i)) =
            (case projectPath (heap m r) of
               None \<Rightarrow> store m
             | Some path \<Rightarrow> if path = [] then store m else (store m)((path, i) := None))
        \<and> (killThrows m (pty (heap m r)) = None \<longrightarrow>
             fst (destroy m i) = okResult
             \<and> (\<forall>j. map_of (terminals (snd (destroy m i))) j
                      = (if j = i then None else map_of (terminals m) j)))
        \<and> (\<forall>e. killThrows m (pty (heap m r)) = Some e \<longrightarrow>
             fst (destroy m i) = failResult (messageOr e (ascii ''Failed to destroy terminal''))
             \<and> terminals (snd (destroy m i)) = terminals m))"
proof -
  have a: "destroy m i = (failResult (ascii ''Terminal not found''), m)"
    if "map_of (terminals m) i = None"
    using that by (rule destroy_unknown)
  have b: "ptyCalls (snd (destroy m i)) = ptyCalls m @ [(pty (heap m r), Kill)]
        \<and> store (snd (destroy m i)) =
            (case projectPath (heap m r) of
               None \<Rightarrow> store m
             | Some path \<Rightarrow> if path = [] then store m else (store m)((path, i) := None))"
    if "map_of (terminals m) i = Some r"
    using that destroy_killed(3,4) [of m i r] destroy_kill_throws(3,4) [of m i r]
    by (cases "killThrows m (pty (heap m r))") blast+
  have c: "fst (destroy m i) = okResult
             \<and> (\<forall>j. map_of (terminals (snd (destroy m i))) j
                      = (if j = i then None else map_of (terminals m) j))"
    if "map_of (terminals m) i = Some r" and "killThrows m (pty (heap m r)) = None"
    using destroy_killed(1,2) [OF that] by (simp add: map_of_deleteKey)
  have d: "fst (destroy m i) = failResult (messageOr e (ascii ''Failed to destroy terminal''))
             \<and> terminals (snd (destroy m i)) = terminals m"
    if "map_of (terminals m) i = Some r" and "killThrows m (pty (heap m r)) = Some e" for e
    using destroy_kill_throws(1,2) [OF that] by simp
  show ?thesis using a b c d by blast
qed

theorem destroy_outcomes_witness:
  "map_of (terminals (newTerminalManager exampleWorld)) (ascii ''t1'') = None
   \<and> destroy (newTerminalManager exampleWorld) (ascii ''t1'')
       = (failResult (ascii ''Terminal not found''), newTerminalManager exampleWorld)
   \<and> map_of (terminals (snd (create (newTerminalManager exampleWorld) exampleOptions))) (ascii ''t1'')
       = Some 0
   \<and> store (snd (create (newTerminalManager exampleWorld) exampleOptions)) (ascii ''/proj'', ascii ''t1'')
       \<noteq> None
   \<and> fst (destroy (snd (create (newTerminalManager exampleWorld) exampleOptions)) (ascii ''t1''))
       = okResult
   \<and> map_of (terminals (snd (destroy (snd (create (newTerminalManager exampleWorld) exampleOptions))
        (ascii ''t1'')))) (ascii ''t1'') = None
   \<and> store (snd (destroy (snd (create (newTerminalManager exampleWorld) exampleOptions))
        (ascii ''t1''))) (ascii ''/proj'', ascii ''t1'') = None"
proof -
  let ?m = "snd (create (newTerminalManager exampleWorld) exampleOptions)"
  have u: "map_of (terminals (newTerminalManager exampleWorld)) (ascii ''t1'') = None"
    by (simp add: newTerminalManager_def)
  have k: "map_of (terminals ?m) (ascii ''t1'') = Some 0"
    by (simp add: example_created(1))
  have n: "killThrows ?m (pty (heap ?m 0)) = None"
    by (simp add: example_defs)
  have p: "projectPath (heap ?m 0) = Some (ascii ''/proj'')" "ascii ''/proj'' \<noteq> []"
    by (simp_all add: example_created(3)) (simp add: ascii_def)
  show ?thesis
    using destroy_outcomes [of "newTerminalManager exampleWorld" "ascii ''t1''" 0] u
      destroy_outcomes [of ?m "ascii ''t1''" 0] k n p example_created(4)
    by simp
qed

text \<open>
  The claim as stated fails where \<open>kill\<close> throws: the lookup has succeeded, and the caller
  is told of a failure.
\<close>

theorem destroy_reports_kill_failure:
  "map_of (terminals (snd (create (newTerminalManager throwingWorld) exampleOptions))) (ascii ''t1'') = Some 0
   \<and> fst (destroy (snd (create (newTerminalManager throwingWorld) exampleOptions)) (ascii ''t1''))
       = \<lparr>success = False, error = Some (ascii ''kill EPERM'')\<rparr>
   \<and> map_of (terminals (snd (destroy (snd (create (newTerminalManager throwingWorld) exampleOptions))
        (ascii ''t1'')))) (ascii ''t1'') = Some 0"
  by (simp add: destroy_def create_def createWith_def newTerminalManager_def throwingWorld_def exampleWorld_def
      exampleOptions_def Let_def saveSession_def removeSession_def ptyKill_def failResult_def ascii_def)

section \<open>create\<close>

lemma create_existing:
  "map_of (terminals m) (opt_id options) \<noteq> None \<Longrightarrow> create m options = (okResult, m)"
  by (simp add: create_def createWith_def Let_def)

lemma create_spawn_throws:
  "map_of (terminals m) (opt_id options) = None \<Longrightarrow> spawnThrows m = Some e \<Longrightarrow>
   create m options = (failResult (messageOr e (ascii ''Failed to create terminal'')), m)"
  by (simp add: create_def createWith_def Let_def)

lemma create_fresh_calls:
  assumes "map_of (terminals m) (opt_id options) = None" and "spawnThrows m = None"
  shows "ptyCalls (snd (create m options)) =
           ptyCalls m @ [(nextRef m, Spawn (case opt_cols options of None \<Rightarrow> 80 | Some c \<Rightarrow> c)
                                          (case opt_rows options of None \<Rightarrow> 24 | Some c \<Rightarrow> c)
                                          (orElse (opt_cwd options) (homedir m)))]"
  using assms by (simp add: create_def createWith_def Let_def saveSession_def split: option.splits)








section \<open>Persistence\<close>

lemma persistTerminal_frame [simp]:
  "heap (persistTerminal m r) = heap m"
  "now (persistTerminal m r) = now m"
  "terminals (persistTerminal m r) = terminals m"
  "saveTimer (persistTerminal m r) = saveTimer m"
  "rateLimitNotifiedAt (persistTerminal m r) = rateLimitNotifiedAt m"
  "ptyCalls (persistTerminal m r) = ptyCalls m"
  "killThrows (persistTerminal m r) = killThrows m"
  "sent (persistTerminal m r) = sent m"
  by (simp_all add: persistTerminal_def Let_def saveSession_def split: option.splits)

lemma persistRefs_frame [simp]:
  "heap (foldl persistTerminal m rs) = heap m"
  "now (foldl persistTerminal m rs) = now m"
  "terminals (foldl persistTerminal m rs) = terminals m"
  "saveTimer (foldl persistTerminal m rs) = saveTimer m"
  "rateLimitNotifiedAt (foldl persistTerminal m rs) = rateLimitNotifiedAt m"
  "ptyCalls (foldl persistTerminal m rs) = ptyCalls m"
  "killThrows (foldl persistTerminal m rs) = killThrows m"
  "sent (foldl persistTerminal m rs) = sent m"
  by (induction rs arbitrary: m) simp_all

lemma sessionOf_cong:
  "heap m' = heap m \<Longrightarrow> now m' = now m \<Longrightarrow> sessionOf m' (heap m' r) p = sessionOf m (heap m r) p"
  by (simp add: sessionOf_def)

lemma store_persistTerminal:
  "store (persistTerminal m r) k =
     (case projectPath (heap m r) of
        None \<Rightarrow> store m k
      | Some path \<Rightarrow>
          if path \<noteq> [] \<and> k = (path, tid (heap m r)) then Some (sessionOf m (heap m r) path)
          else store m k)"
  by (auto simp: persistTerminal_def Let_def saveSession_def sessionOf_def split: option.splits)

lemma store_persistRefs:
  assumes "r \<in> set rs" and "projectPath (heap m r) = Some p" and "p \<noteq> []"
    and "\<forall>r'\<in>set rs. tid (heap m r') = tid (heap m r) \<longrightarrow> r' = r"
  shows "store (foldl persistTerminal m rs) (p, tid (heap m r)) = Some (sessionOf m (heap m r) p)"
  using assms
proof (induction rs rule: rev_induct)
  case Nil
  then show ?case by simp
next
  case (snoc x xs)
  let ?m = "foldl persistTerminal m xs"
  have s: "sessionOf ?m t q = sessionOf m t q" for t q
    by (simp add: sessionOf_def)
  show ?case
  proof (cases "x = r")
    case True
    then show ?thesis using snoc.prems(2,3) by (simp add: store_persistTerminal s)
  next
    case False
    with snoc.prems have in_xs: "r \<in> set xs" and neq: "tid (heap m x) \<noteq> tid (heap m r)"
      by auto
    have ih: "store ?m (p, tid (heap m r)) = Some (sessionOf m (heap m r) p)"
      using snoc.IH in_xs snoc.prems(2,3,4) by simp
    show ?thesis using neq ih by (simp add: store_persistTerminal split: option.splits)
  qed
qed

lemma registryOk_unique:
  assumes "registryOk m" and "e \<in> set (terminals m)" and "e' \<in> set (terminals m)"
    and "tid (heap m (snd e')) = tid (heap m (snd e))"
  shows "snd e' = snd e"
proof -
  obtain k v where e: "e = (k, v)" by (cases e)
  obtain k' v' where e': "e' = (k', v')" by (cases e')
  from assms(1,2) have "tid (heap m v) = k" by (fastforce simp: registryOk_def e)
  moreover from assms(1,3) have "tid (heap m v') = k'" by (fastforce simp: registryOk_def e')
  ultimately have "k' = k" using assms(4) by (simp add: e e')
  moreover from assms(1) have "distinct (map fst (terminals m))" by (simp add: registryOk_def)
  ultimately have "v' = v" using assms(2,3) unfolding e e' by (metis eq_key_imp_eq_value)
  then show ?thesis by (simp add: e e')
qed

lemma store_persistAllSessions:
  assumes ok: "registryOk m" and e: "e \<in> set (terminals m)"
    and p: "projectPath (heap m (snd e)) = Some p" "p \<noteq> []"
  shows "store (persistAllSessions m) (p, fst e) = Some (sessionOf m (heap m (snd e)) p)"
proof -
  have k: "tid (heap m (snd e)) = fst e" using ok e by (simp add: registryOk_def)
  have u: "\<forall>r'\<in>set (map snd (terminals m)). tid (heap m r') = tid (heap m (snd e)) \<longrightarrow> r' = snd e"
    using registryOk_unique [OF ok e] by auto
  have "snd e \<in> set (map snd (terminals m))" using e by simp
  from store_persistRefs [OF this p u] show ?thesis
    by (simp add: persistAllSessions_def k)
qed


section \<open>killAll\<close>

lemma killOne_frame [simp]:
  "heap (killOne m r) = heap m"
  "store (killOne m r) = store m"
  "rateLimitNotifiedAt (killOne m r) = rateLimitNotifiedAt m"
  "saveTimer (killOne m r) = saveTimer m"
  "ptyCalls (killOne m r) = ptyCalls m @ [(pty (heap m r), Kill)]"
  by (simp_all add: killOne_def ptyKill_def)

lemma killRefs_frame [simp]:
  "heap (foldl killOne m rs) = heap m"
  "store (foldl killOne m rs) = store m"
  "rateLimitNotifiedAt (foldl killOne m rs) = rateLimitNotifiedAt m"
  "saveTimer (foldl killOne m rs) = saveTimer m"
  by (induction rs arbitrary: m) simp_all

lemma killRefs_calls:
  "ptyCalls (foldl killOne m rs) = ptyCalls m @ map (\<lambda>r. (pty (heap m r), Kill)) rs"
  by (induction rs arbitrary: m) simp_all

lemma killAll_effects:
  "terminals (killAll m) = []"
  "saveTimer (killAll m) = None"
  "rateLimitNotifiedAt (killAll m) = rateLimitNotifiedAt m"
  "store (killAll m) = store (persistAllSessions m)"
  "ptyCalls (killAll m) = ptyCalls m @ map (\<lambda>e. (pty (heap m (snd e)), Kill)) (terminals m)"
  by (simp_all add: killAll_def Let_def persistAllSessions_def killRefs_calls comp_def
      split: option.splits)

section \<open>Rate-limit notices\<close>

lemmas rate_limit_defs = RATE_LIMIT_PATTERN_def rateLimitChunk_def lit_def isSpace_def
  isLineTerminator_def ascii_def

lemma match_rateLimitChunk:
  "match rateLimitChunk RATE_LIMIT_PATTERN = Some (Some (ascii ''Dec 17 at 6am (Europe/Oslo)''))"
  by (simp add: rate_limit_defs)

lemma trim_reset_text:
  "trim (ascii ''Dec 17 at 6am (Europe/Oslo)'') = ascii ''Dec 17 at 6am (Europe/Oslo)''"
  by (simp add: trim_def isSpace_def ascii_def)

lemma extract_rateLimitChunk: "extractClaudeSessionId rateLimitChunk = None"
  by (simp add: extractClaudeSessionId_def pattern_defs rateLimitChunk_def)

section \<open>The output handler and the cool-down\<close>

lemma example_claude:
  "terminals claudeExample = [(ascii ''t1'', 0)]"
  "heap claudeExample 0 =
     \<lparr>tid = ascii ''t1'', pty = 0, isClaudeMode = True, projectPath = Some (ascii ''/proj''),
      cwd = ascii ''/tmp'', claudeSessionId = None, outputBuffer = [],
      title = ascii ''Terminal '' @ showNat 1\<rparr>"
  "rateLimitNotifiedAt claudeExample = Map.empty"
  "now claudeExample = 100000"
  "window claudeExample"
  "nextRef claudeExample = 1"
  "saveTimer claudeExample = Some 30000"
  by (simp_all add: claudeExample_def invokeClaude_def example_defs update_def send_def ptyWrite_def
      getSession_def captureClaudeSessionId_def)

lemma frame_send [simp]:
  "terminals (send m e) = terminals m"
  "rateLimitNotifiedAt (send m e) = rateLimitNotifiedAt m"
  "now (send m e) = now m"
  "window (send m e) = window m"
  "store (send m e) = store m"
  "nextRef (send m e) = nextRef m"
  "saveTimer (send m e) = saveTimer m"
  by (simp_all add: send_def)

lemma frame_adoptSessionId [simp]:
  "terminals (adoptSessionId m r i s) = terminals m"
  "rateLimitNotifiedAt (adoptSessionId m r i s) = rateLimitNotifiedAt m"
  "now (adoptSessionId m r i s) = now m"
  "window (adoptSessionId m r i s) = window m"
  "nextRef (adoptSessionId m r i s) = nextRef m"
  "saveTimer (adoptSessionId m r i s) = saveTimer m"
  by (simp_all add: adoptSessionId_def Let_def update_def updateClaudeSessionId_def
      split: option.splits)

lemma frame_captureFromOutput [simp]:
  "terminals (captureFromOutput m r d) = terminals m"
  "rateLimitNotifiedAt (captureFromOutput m r d) = rateLimitNotifiedAt m"
  "now (captureFromOutput m r d) = now m"
  "window (captureFromOutput m r d) = window m"
  "nextRef (captureFromOutput m r d) = nextRef m"
  "saveTimer (captureFromOutput m r d) = saveTimer m"
  by (simp_all add: captureFromOutput_def split: option.splits)

lemma frame_appendOutput [simp]:
  "terminals (appendOutput m r d) = terminals m"
  "rateLimitNotifiedAt (appendOutput m r d) = rateLimitNotifiedAt m"
  "now (appendOutput m r d) = now m"
  "window (appendOutput m r d) = window m"
  "sent (appendOutput m r d) = sent m"
  "nextRef (appendOutput m r d) = nextRef m"
  "saveTimer (appendOutput m r d) = saveTimer m"
  "tid (heap (appendOutput m r d) r') = tid (heap m r')"
  "isClaudeMode (heap (appendOutput m r d) r') = isClaudeMode (heap m r')"
  "claudeSessionId (heap (appendOutput m r d) r') = claudeSessionId (heap m r')"
  by (simp_all add: appendOutput_def update_def)

lemma fields_captureFromOutput [simp]:
  "tid (heap (captureFromOutput m r d) r') = tid (heap m r')"
  "isClaudeMode (heap (captureFromOutput m r d) r') = isClaudeMode (heap m r')"
  using heap_captureFromOutput [of m r d] by (auto split: if_splits)

lemma rateLimits_send:
  "filter isRateLimit (sent (send m e)) =
     filter isRateLimit (sent m) @ (if window m \<and> isRateLimit e then [e] else [])"
  by (simp add: send_def)

lemma rateLimits_adoptSessionId [simp]:
  "filter isRateLimit (sent (adoptSessionId m r i s)) = filter isRateLimit (sent m)"
  by (simp add: adoptSessionId_def Let_def rateLimits_send update_def updateClaudeSessionId_def
      split: option.splits)

lemma rateLimits_captureFromOutput [simp]:
  "filter isRateLimit (sent (captureFromOutput m r d)) = filter isRateLimit (sent m)"
  by (simp add: captureFromOutput_def split: option.splits)

text \<open>What \<open>onData\<close> does to the cool-down map and to the rate-limit messages sent.\<close>

lemma onData_cooldown:
  "rateLimitNotifiedAt (onData m r d) =
     (case match d RATE_LIMIT_PATTERN of
        Some (Some g) \<Rightarrow>
          if isClaudeMode (heap m r) \<and> now m - lastNotified m (tid (heap m r)) > 60000
          then (rateLimitNotifiedAt m)(tid (heap m r) \<mapsto> now m)
          else rateLimitNotifiedAt m
      | _ \<Rightarrow> rateLimitNotifiedAt m)"
  by (simp add: onData_def Let_def checkRateLimit_def lastNotified_def split: option.splits)

lemma onData_rateLimits:
  "rateLimits (onData m r d) =
     rateLimits m @
     (case match d RATE_LIMIT_PATTERN of
        Some (Some g) \<Rightarrow>
          if window m \<and> isClaudeMode (heap m r) \<and> now m - lastNotified m (tid (heap m r)) > 60000
          then [TERMINAL_RATE_LIMIT (tid (heap m r)) (trim g) (now m)]
          else []
      | _ \<Rightarrow> [])"
  by (auto simp: onData_def Let_def checkRateLimit_def lastNotified_def rateLimits_def
      rateLimits_send split: option.splits)

lemma onData_frame [simp]:
  "terminals (onData m r d) = terminals m"
  "now (onData m r d) = now m"
  "window (onData m r d) = window m"
  "tid (heap (onData m r d) r') = tid (heap m r')"
  "isClaudeMode (heap (onData m r d) r') = isClaudeMode (heap m r')"
  "nextRef (onData m r d) = nextRef m"
  "saveTimer (onData m r d) = saveTimer m"
  by (simp_all add: onData_def Let_def checkRateLimit_def split: option.splits)


lemma at_time [simp]:
  "rateLimits (m\<lparr>now := t\<rparr>) = rateLimits m"
  "lastNotified (m\<lparr>now := t\<rparr>) i = lastNotified m i"
  by (simp_all add: rateLimits_def lastNotified_def)


lemma rateLimits_claudeExample: "rateLimits claudeExample = []"
  by (simp add: rateLimits_def claudeExample_def invokeClaude_def example_defs update_def send_def
      ptyWrite_def getSession_def captureClaudeSessionId_def)

lemma example_limited:
  "rateLimitNotifiedAt limitedExample = [ascii ''t1'' \<mapsto> 100000]"
  "rateLimits limitedExample = [TERMINAL_RATE_LIMIT (ascii ''t1'') (ascii ''Dec 17 at 6am (Europe/Oslo)'') 100000]"
  "terminals limitedExample = [(ascii ''t1'', 0)]"
   apply (simp add: limitedExample_def onData_cooldown match_rateLimitChunk example_claude lastNotified_def)
   apply (simp add: limitedExample_def onData_rateLimits match_rateLimitChunk example_claude lastNotified_def
      trim_reset_text rateLimits_claudeExample)
  apply (simp add: limitedExample_def example_claude)
  done


section \<open>Teardown\<close>

lemma registryOk_claudeExample: "registryOk claudeExample"
  by (simp add: registryOk_def example_claude)

text \<open>
  Claim C8, as the code has it. \<open>killAll\<close> saves a record for every registered terminal
  that has a project path, sets \<open>saveTimer\<close> to \<open>null\<close>, calls \<open>kill\<close> on the pty of
  every registered terminal whatever any of these calls throws, and empties the registry.
  It leaves the rate-limit cool-down map as it is.
\<close>

theorem killAll_teardown:
  "terminals (killAll m) = []
   \<and> saveTimer (killAll m) = None
   \<and> ptyCalls (killAll m) = ptyCalls m @ map (\<lambda>e. (pty (heap m (snd e)), Kill)) (terminals m)
   \<and> rateLimitNotifiedAt (killAll m) = rateLimitNotifiedAt m
   \<and> (registryOk m \<longrightarrow>
        (\<forall>e\<in>set (terminals m). \<forall>p. projectPath (heap m (snd e)) = Some p \<longrightarrow> p \<noteq> [] \<longrightarrow>
           store (killAll m) (p, fst e) = Some (sessionOf m (heap m (snd e)) p)))"
  using killAll_effects [of m] store_persistAllSessions [of m] by simp

theorem killAll_teardown_witness:
  "registryOk claudeExample
   \<and> (ascii ''t1'', 0) \<in> set (terminals claudeExample)
   \<and> projectPath (heap claudeExample 0) = Some (ascii ''/proj'')
   \<and> saveTimer claudeExample = Some 30000
   \<and> saveTimer (killAll claudeExample) = None
   \<and> terminals (killAll claudeExample) = []
   \<and> store (killAll claudeExample) (ascii ''/proj'', ascii ''t1'')
       = Some (sessionOf claudeExample (heap claudeExample 0) (ascii ''/proj''))"
proof -
  have e: "(ascii ''t1'', 0) \<in> set (terminals claudeExample)" by (simp add: example_claude)
  have p: "projectPath (heap claudeExample 0) = Some (ascii ''/proj'')" "ascii ''/proj'' \<noteq> []"
    by (simp_all add: example_claude) (simp add: ascii_def)
  have t: "saveTimer claudeExample = Some 30000" by (simp add: example_claude)
  show ?thesis
    using killAll_teardown [of claudeExample] registryOk_claudeExample e p t by fastforce
qed

text \<open>The claim as stated fails on the cool-down map: an entry survives \<open>killAll\<close>.\<close>

theorem killAll_keeps_cooldown_map:
  "rateLimitNotifiedAt limitedExample (ascii ''t1'') = Some 100000
   \<and> rateLimitNotifiedAt (killAll limitedExample) (ascii ''t1'') = Some 100000
   \<and> terminals (killAll limitedExample) = []"
  by (simp add: killAll_effects example_limited)

section \<open>invokeClaude and resumeClaude\<close>

lemma invokeClaude_known:
  assumes "map_of (terminals m) i = Some r"
  shows "heap (fst (invokeClaude m i dir)) =
           (heap m)(r := (heap m r)\<lparr>isClaudeMode := True, claudeSessionId := None\<rparr>)"
    and "sent (fst (invokeClaude m i dir)) =
           sent m @ (if window m then [TERMINAL_TITLE_CHANGE i (ascii ''Claude'')] else [])"
    and "terminals (fst (invokeClaude m i dir)) = terminals m"
    and "nextRef (fst (invokeClaude m i dir)) = nextRef m"
    and "now (fst (invokeClaude m i dir)) = now m"
  using assms
  by (simp_all add: invokeClaude_def Let_def update_def send_def ptyWrite_def saveSession_def
      getSession_def split: option.splits)

lemma invokeClaude_stored_title:
  assumes "map_of (terminals m) i = Some r" and "projectPath (heap m r) = Some p"
  shows "map_option session_title (store (fst (invokeClaude m i dir)) (p, i))
           = map_option session_title (store m (p, i))"
  using assms
  by (auto simp: invokeClaude_def Let_def update_def send_def ptyWrite_def saveSession_def
      getSession_def split: option.splits)

lemma resumeClaude_known:
  assumes "map_of (terminals m) i = Some r"
  shows "heap (resumeClaude m i sessionId) =
           (heap m)(r := (heap m r)\<lparr>isClaudeMode := True,
              claudeSessionId := (if truthy sessionId then sessionId else claudeSessionId (heap m r))\<rparr>)"
    and "sent (resumeClaude m i sessionId) =
           sent m @ (if window m then [TERMINAL_TITLE_CHANGE i (ascii ''Claude'')] else [])"
    and "terminals (resumeClaude m i sessionId) = terminals m"
    and "nextRef (resumeClaude m i sessionId) = nextRef m"
    and "now (resumeClaude m i sessionId) = now m"
    and "store (resumeClaude m i sessionId) = store m"
  using assms
  by (simp_all add: resumeClaude_def Let_def update_def send_def ptyWrite_def split: option.splits)

lemma registryOk_heap_update:
  assumes "registryOk m" and "terminals m' = terminals m" and "nextRef m' = nextRef m"
    and "\<forall>r'. tid (heap m' r') = tid (heap m r')"
  shows "registryOk m'"
  using assms by (simp add: registryOk_def)

lemma persisted_title:
  assumes ok: "registryOk m'" and k: "map_of (terminals m') i = Some r"
    and p: "projectPath (heap m' r) = Some p" "p \<noteq> []"
  shows "map_option session_title (store (persistAllSessions m') (p, i)) = Some (title (heap m' r))"
proof -
  have e: "(i, r) \<in> set (terminals m')" using k by (rule map_of_SomeD)
  from store_persistAllSessions [OF ok e] p show ?thesis by (simp add: sessionOf_def)
qed


lemma example_created_state:
  "terminals createdExample = [(ascii ''t1'', 0)]"
  "heap createdExample 0 =
     \<lparr>tid = ascii ''t1'', pty = 0, isClaudeMode = False, projectPath = Some (ascii ''/proj''),
      cwd = ascii ''/tmp'', claudeSessionId = None, outputBuffer = [],
      title = ascii ''Terminal '' @ showNat 1\<rparr>"
  "window createdExample"
  "nextRef createdExample = 1"
  "sent createdExample = []"
  "now createdExample = 100000"
  by (simp_all add: createdExample_def example_defs)

lemma registryOk_createdExample: "registryOk createdExample"
  by (simp add: registryOk_def example_created_state)

text \<open>
  Claim C10. On a known id, \<open>invokeClaude\<close> and \<open>resumeClaude\<close> send the title-change
  message with the label \<open>Claude\<close> (when a window exists) and assign only the fields
  \<open>isClaudeMode\<close> and \<open>claudeSessionId\<close> of the terminal record: its \<open>title\<close> and every
  other field stay as they were, as does every other record. The title that the store
  holds for the terminal is not changed by \<open>invokeClaude\<close>, and the title that
  \<open>persistAllSessions\<close> writes afterwards is the title from before the call.
\<close>

theorem claude_mode_keeps_title:
  "map_of (terminals m) i = Some r \<longrightarrow>
     heap (fst (invokeClaude m i dir)) =
       (heap m)(r := (heap m r)\<lparr>isClaudeMode := True, claudeSessionId := None\<rparr>)
     \<and> heap (resumeClaude m i sessionId) =
         (heap m)(r := (heap m r)\<lparr>isClaudeMode := True,
            claudeSessionId := (if truthy sessionId then sessionId else claudeSessionId (heap m r))\<rparr>)
     \<and> title (heap (fst (invokeClaude m i dir)) r) = title (heap m r)
     \<and> title (heap (resumeClaude m i sessionId) r) = title (heap m r)
     \<and> (window m \<longrightarrow>
          sent (fst (invokeClaude m i dir)) = sent m @ [TERMINAL_TITLE_CHANGE i (ascii ''Claude'')]
          \<and> sent (resumeClaude m i sessionId) = sent m @ [TERMINAL_TITLE_CHANGE i (ascii ''Claude'')])
     \<and> store (resumeClaude m i sessionId) = store m
     \<and> (\<forall>p. projectPath (heap m r) = Some p \<longrightarrow>
           map_option session_title (store (fst (invokeClaude m i dir)) (p, i))
             = map_option session_title (store m (p, i)))
     \<and> (registryOk m \<longrightarrow>
          (\<forall>p. projectPath (heap m r) = Some p \<longrightarrow> p \<noteq> [] \<longrightarrow>
             map_option session_title (store (persistAllSessions (fst (invokeClaude m i dir))) (p, i))
               = Some (title (heap m r))
             \<and> map_option session_title (store (persistAllSessions (resumeClaude m i sessionId)) (p, i))
                 = Some (title (heap m r))))"
proof
  assume k: "map_of (terminals m) i = Some r"
  note inv = invokeClaude_known [OF k, of dir]
  note res = resumeClaude_known [OF k, of sessionId]
  have t: "title (heap (fst (invokeClaude m i dir)) r) = title (heap m r)"
    "title (heap (resumeClaude m i sessionId) r) = title (heap m r)"
    by (simp_all add: inv(1) res(1))
  have s: "window m \<longrightarrow>
          sent (fst (invokeClaude m i dir)) = sent m @ [TERMINAL_TITLE_CHANGE i (ascii ''Claude'')]
          \<and> sent (resumeClaude m i sessionId) = sent m @ [TERMINAL_TITLE_CHANGE i (ascii ''Claude'')]"
    by (simp add: inv(2) res(2))
  have st: "\<forall>p. projectPath (heap m r) = Some p \<longrightarrow>
           map_option session_title (store (fst (invokeClaude m i dir)) (p, i))
             = map_option session_title (store m (p, i))"
    using invokeClaude_stored_title [OF k] by blast
  have later: "map_option session_title (store (persistAllSessions (fst (invokeClaude m i dir))) (p, i))
               = Some (title (heap m r))
             \<and> map_option session_title (store (persistAllSessions (resumeClaude m i sessionId)) (p, i))
                 = Some (title (heap m r))"
    if ok: "registryOk m" and p: "projectPath (heap m r) = Some p" "p \<noteq> []" for p
  proof -
    have ok1: "registryOk (fst (invokeClaude m i dir))"
      by (rule registryOk_heap_update [OF ok inv(3) inv(4)]) (simp add: inv(1))
    have ok2: "registryOk (resumeClaude m i sessionId)"
      by (rule registryOk_heap_update [OF ok res(3) res(4)]) (simp add: res(1))
    have k1: "map_of (terminals (fst (invokeClaude m i dir))) i = Some r" using k by (simp add: inv(3))
    have k2: "map_of (terminals (resumeClaude m i sessionId)) i = Some r" using k by (simp add: res(3))
    have p1: "projectPath (heap (fst (invokeClaude m i dir)) r) = Some p" using p by (simp add: inv(1))
    have p2: "projectPath (heap (resumeClaude m i sessionId) r) = Some p" using p by (simp add: res(1))
    show ?thesis
      using persisted_title [OF ok1 k1 p1 p(2)] persisted_title [OF ok2 k2 p2 p(2)] t by simp
  qed
  show "heap (fst (invokeClaude m i dir)) =
       (heap m)(r := (heap m r)\<lparr>isClaudeMode := True, claudeSessionId := None\<rparr>)
     \<and> heap (resumeClaude m i sessionId) =
         (heap m)(r := (heap m r)\<lparr>isClaudeMode := True,
            claudeSessionId := (if truthy sessionId then sessionId else claudeSessionId (heap m r))\<rparr>)
     \<and> title (heap (fst (invokeClaude m i dir)) r) = title (heap m r)
     \<and> title (heap (resumeClaude m i sessionId) r) = title (heap m r)
     \<and> (window m \<longrightarrow>
          sent (fst (invokeClaude m i dir)) = sent m @ [TERMINAL_TITLE_CHANGE i (ascii ''Claude'')]
          \<and> sent (resumeClaude m i sessionId) = sent m @ [TERMINAL_TITLE_CHANGE i (ascii ''Claude'')])
     \<and> store (resumeClaude m i sessionId) = store m
     \<and> (\<forall>p. projectPath (heap m r) = Some p \<longrightarrow>
           map_option session_title (store (fst (invokeClaude m i dir)) (p, i))
             = map_option session_title (store m (p, i)))
     \<and> (registryOk m \<longrightarrow>
          (\<forall>p. projectPath (heap m r) = Some p \<longrightarrow> p \<noteq> [] \<longrightarrow>
             map_option session_title (store (persistAllSessions (fst (invokeClaude m i dir))) (p, i))
               = Some (title (heap m r))
             \<and> map_option session_title (store (persistAllSessions (resumeClaude m i sessionId)) (p, i))
                 = Some (title (heap m r))))"
    using inv(1) res(1) t s res(6) st later by blast
qed

theorem claude_mode_keeps_title_witness:
  "map_of (terminals createdExample) (ascii ''t1'') = Some 0
   \<and> window createdExample \<and> registryOk createdExample
   \<and> projectPath (heap createdExample 0) = Some (ascii ''/proj'')
   \<and> title (heap createdExample 0) = ascii ''Terminal '' @ showNat 1
   \<and> sent (fst (invokeClaude createdExample (ascii ''t1'') None))
       = [TERMINAL_TITLE_CHANGE (ascii ''t1'') (ascii ''Claude'')]
   \<and> title (heap (fst (invokeClaude createdExample (ascii ''t1'') None)) 0)
       = ascii ''Terminal '' @ showNat 1
   \<and> map_option session_title
        (store (persistAllSessions (fst (invokeClaude createdExample (ascii ''t1'') None)))
           (ascii ''/proj'', ascii ''t1''))
       = Some (ascii ''Terminal '' @ showNat 1)
   \<and> title (heap (resumeClaude createdExample (ascii ''t1'') (Some (ascii ''s-42''))) 0)
       = ascii ''Terminal '' @ showNat 1"
proof -
  have k: "map_of (terminals createdExample) (ascii ''t1'') = Some 0"
    by (simp add: example_created_state)
  have w: "window createdExample" by (simp add: example_created_state)
  have p: "projectPath (heap createdExample 0) = Some (ascii ''/proj'')" "ascii ''/proj'' \<noteq> []"
    by (simp_all add: example_created_state) (simp add: ascii_def)
  have t: "title (heap createdExample 0) = ascii ''Terminal '' @ showNat 1"
    "sent createdExample = []"
    by (simp_all add: example_created_state)
  note c = claude_mode_keeps_title [of createdExample "ascii ''t1''" 0 None "Some (ascii ''s-42'')",
      rule_format, OF k]
  show ?thesis
    using k w p t registryOk_createdExample c by simp
qed

section \<open>The directory scan\<close>

lemma statAll_Some:
  "statAll fs = Some stats \<Longrightarrow> fs = map (\<lambda>f. (fst f, Some (snd f))) stats"
proof (induction fs arbitrary: stats rule: statAll.induct)
  case 1
  then show ?case by simp
next
  case (2 name fs)
  then show ?case by simp
next
  case (3 name mtime fs)
  then show ?case by (auto split: option.splits)
qed

lemma statAll_mem:
  assumes "statAll fs = Some stats"
  shows "(name, t) \<in> set stats \<longleftrightarrow> (name, Some t) \<in> set fs"
proof -
  have "fs = map (\<lambda>f. (fst f, Some (snd f))) stats" using assms by (rule statAll_Some)
  then show ?thesis by force
qed

lemma sort_key_head:
  assumes "sort_key f xs = y # ys"
  shows "y \<in> set xs \<and> (\<forall>x\<in>set xs. f y \<le> f x)"
proof -
  have "set (sort_key f xs) = set xs" by simp
  then have s: "set xs = insert y (set ys)" using assms by simp
  have "sorted (map f (sort_key f xs))" by (rule sorted_sort_key)
  then have "\<forall>x\<in>set ys. f y \<le> f x" using assms by simp
  then show ?thesis using s by auto
qed

lemma scan_missing_directory:
  "dir path = None \<Longrightarrow> findClaudeSessionAfter dir path after = None"
  by (simp add: findClaudeSessionAfter_def)

lemma scan_found:
  assumes "dir path = Some entries" and "findClaudeSessionAfter dir path after = Some n"
  shows "\<exists>name t. (name, Some t) \<in> set entries \<and> endsWith name (ascii ''.jsonl'') \<and> after < t
           \<and> n = replaceFirst (ascii ''.jsonl'') [] name
           \<and> (\<forall>name' t'. (name', Some t') \<in> set entries \<and> endsWith name' (ascii ''.jsonl'') \<and> after < t'
                  \<longrightarrow> t' \<le> t)"
proof -
  let ?logs = "filter (\<lambda>f. endsWith (fst f) (ascii ''.jsonl'')) entries"
  from assms obtain stats where st: "statAll ?logs = Some stats"
    by (auto simp: findClaudeSessionAfter_def split: option.splits)
  let ?new = "filter (\<lambda>f. snd f > after) stats"
  from assms st obtain f rest where srt: "sort_key (\<lambda>f. - snd f) ?new = f # rest"
    and n: "n = replaceFirst (ascii ''.jsonl'') [] (fst f)"
    by (auto simp: findClaudeSessionAfter_def split: list.splits)
  from sort_key_head [OF srt] have f: "f \<in> set ?new" and mx: "\<forall>x\<in>set ?new. snd x \<le> snd f"
    by auto
  have mem: "(name, t) \<in> set stats \<longleftrightarrow> (name, Some t) \<in> set entries \<and> endsWith name (ascii ''.jsonl'')"
    for name t
    using statAll_mem [OF st, of name t] by auto
  have 1: "(fst f, Some (snd f)) \<in> set entries \<and> endsWith (fst f) (ascii ''.jsonl'') \<and> after < snd f"
    using f mem [of "fst f" "snd f"] by simp
  have 2: "t' \<le> snd f"
    if "(name', Some t') \<in> set entries \<and> endsWith name' (ascii ''.jsonl'') \<and> after < t'" for name' t'
  proof -
    from that have "(name', t') \<in> set ?new" using mem [of name' t'] by simp
    with mx show ?thesis by fastforce
  qed
  show ?thesis using 1 2 n by blast
qed

lemma scan_nothing_newer:
  assumes "dir path = Some entries"
    and "\<forall>name t. (name, Some t) \<in> set entries \<and> endsWith name (ascii ''.jsonl'') \<longrightarrow> t \<le> after"
  shows "findClaudeSessionAfter dir path after = None"
proof (cases "findClaudeSessionAfter dir path after")
  case None
  then show ?thesis .
next
  case (Some n)
  from scan_found [OF assms(1) Some] assms(2) show ?thesis by fastforce
qed

lemma statAll_total:
  "\<forall>f\<in>set fs. snd f \<noteq> None \<Longrightarrow> \<exists>stats. statAll fs = Some stats"
proof (induction fs rule: statAll.induct)
  case 1
  then show ?case by simp
next
  case (2 name fs)
  then show ?case by simp
next
  case (3 name mtime fs)
  then show ?case by (auto split: option.splits)
qed

lemma statAll_throws:
  "(name, None) \<in> set fs \<Longrightarrow> statAll fs = None"
proof (induction fs rule: statAll.induct)
  case 1
  then show ?case by simp
next
  case (2 name' fs)
  then show ?case by simp
next
  case (3 name' mtime fs)
  then show ?case by (auto split: option.splits)
qed

lemma scan_stat_throws:
  assumes "dir path = Some entries" and "(name, None) \<in> set entries"
    and "endsWith name (ascii ''.jsonl'')"
  shows "findClaudeSessionAfter dir path after = None"
proof -
  have "(name, None) \<in> set (filter (\<lambda>f. endsWith (fst f) (ascii ''.jsonl'')) entries)"
    using assms(2,3) by simp
  then have "statAll (filter (\<lambda>f. endsWith (fst f) (ascii ''.jsonl'')) entries) = None"
    by (rule statAll_throws)
  then show ?thesis using assms(1) by (simp add: findClaudeSessionAfter_def)
qed

lemma scan_complete:
  assumes d: "dir path = Some entries"
    and s: "\<forall>name'. (name', None) \<in> set entries \<longrightarrow> \<not> endsWith name' (ascii ''.jsonl'')"
    and q: "(name, Some t) \<in> set entries" "endsWith name (ascii ''.jsonl'')" "after < t"
  shows "\<exists>n. findClaudeSessionAfter dir path after = Some n"
proof -
  let ?logs = "filter (\<lambda>f. endsWith (fst f) (ascii ''.jsonl'')) entries"
  have "\<forall>f\<in>set ?logs. snd f \<noteq> None"
  proof
    fix f assume f: "f \<in> set ?logs"
    show "snd f \<noteq> None"
    proof
      assume "snd f = None"
      then have "(fst f, None) \<in> set entries" using f by (cases f) auto
      with s f show False by simp
    qed
  qed
  then obtain stats where st: "statAll ?logs = Some stats" using statAll_total by blast
  have "(name, Some t) \<in> set ?logs" using q by simp
  then have "(name, t) \<in> set stats" using statAll_mem [OF st] by simp
  then have "(name, t) \<in> set (filter (\<lambda>f. snd f > after) stats)" using q(3) by simp
  then have "set (sort_key (\<lambda>f. - snd f) (filter (\<lambda>f. snd f > after) stats)) \<noteq> {}"
    by auto
  then have "sort_key (\<lambda>f. - snd f) (filter (\<lambda>f. snd f > after) stats) \<noteq> []"
    by (metis set_empty)
  then show ?thesis using d st by (auto simp: findClaudeSessionAfter_def split: list.splits)
qed

lemma sort_key_first:
  assumes "sort_key f xs = y # ys"
  shows "\<exists>us vs. xs = us @ y # vs \<and> (\<forall>u\<in>set us. f u \<noteq> f y)"
proof -
  have "filter (\<lambda>x. f x = f y) (sort_key f xs) = filter (\<lambda>x. f x = f y) xs"
    by (rule sort_key_stable)
  then have "filter (\<lambda>x. f x = f y) xs = y # filter (\<lambda>x. f x = f y) ys"
    using assms by simp
  then show ?thesis by (auto simp: filter_eq_Cons_iff)
qed

lemma filter_split_first:
  assumes "filter P xs = us @ y # vs"
  shows "\<exists>us' vs'. xs = us' @ y # vs' \<and> us = filter P us' \<and> vs = filter P vs'"
  using assms
proof (induction xs arbitrary: us)
  case Nil
  then show ?case by simp
next
  case (Cons x xs)
  show ?case
  proof (cases "P x")
    case False
    with Cons.prems have "filter P xs = us @ y # vs" by simp
    from Cons.IH [OF this] obtain a b where "xs = a @ y # b" "us = filter P a" "vs = filter P b"
      by blast
    then have "x # xs = (x # a) @ y # b \<and> us = filter P (x # a) \<and> vs = filter P b"
      using False by simp
    then show ?thesis by blast
  next
    case True
    show ?thesis
    proof (cases us)
      case Nil
      with Cons.prems True have "x # xs = [] @ y # xs \<and> us = filter P [] \<and> vs = filter P xs"
        by simp
      then show ?thesis by blast
    next
      case (Cons u us2)
      with Cons.prems True have x: "x = u" and "filter P xs = us2 @ y # vs" by simp_all
      from Cons.IH [OF this(2)] obtain a b where "xs = a @ y # b" "us2 = filter P a" "vs = filter P b"
        by blast
      then have "x # xs = (x # a) @ y # b \<and> us = filter P (x # a) \<and> vs = filter P b"
        using True x Cons by simp
      then show ?thesis by blast
    qed
  qed
qed

lemma scan_first_newest:
  assumes "dir path = Some entries" and "findClaudeSessionAfter dir path after = Some n"
  shows "\<exists>pre name t post. entries = pre @ (name, Some t) # post
           \<and> endsWith name (ascii ''.jsonl'') \<and> after < t
           \<and> n = replaceFirst (ascii ''.jsonl'') [] name
           \<and> (\<forall>name' t'. (name', Some t') \<in> set pre \<and> endsWith name' (ascii ''.jsonl'') \<and> after < t'
                  \<longrightarrow> t' < t)
           \<and> (\<forall>name' t'. (name', Some t') \<in> set post \<and> endsWith name' (ascii ''.jsonl'') \<and> after < t'
                  \<longrightarrow> t' \<le> t)"
proof -
  let ?E = "\<lambda>f :: jsstring \<times> int option. endsWith (fst f) (ascii ''.jsonl'')"
  let ?logs = "filter ?E entries"
  from assms obtain stats where st: "statAll ?logs = Some stats"
    by (auto simp: findClaudeSessionAfter_def split: option.splits)
  let ?Q = "\<lambda>f :: jsstring \<times> int. snd f > after"
  let ?new = "filter ?Q stats"
  from assms st obtain f rest where srt: "sort_key (\<lambda>f. - snd f) ?new = f # rest"
    and n: "n = replaceFirst (ascii ''.jsonl'') [] (fst f)"
    by (auto simp: findClaudeSessionAfter_def split: list.splits)
  from sort_key_head [OF srt] have mx: "\<forall>x\<in>set ?new. snd x \<le> snd f" and fq: "f \<in> set ?new" by auto
  from sort_key_first [OF srt] obtain us vs where
    new: "?new = us @ f # vs" and us: "\<forall>u\<in>set us. snd u \<noteq> snd f"
    by auto
  from filter_split_first [OF new] obtain us1 vs1 where
    stats: "stats = us1 @ f # vs1" and us1: "us = filter ?Q us1" and vs1: "vs = filter ?Q vs1"
    by blast
  let ?g = "\<lambda>f :: jsstring \<times> int. (fst f, Some (snd f))"
  have logs: "?logs = map ?g us1 @ ?g f # map ?g vs1"
    using statAll_Some [OF st] stats by simp
  from filter_split_first [OF logs] obtain pre post where
    entries: "entries = pre @ ?g f # post" and pre: "map ?g us1 = filter ?E pre"
    and post: "map ?g vs1 = filter ?E post"
    by blast
  have lt: "t' < snd f"
    if "(name', Some t') \<in> set pre \<and> endsWith name' (ascii ''.jsonl'') \<and> after < t'" for name' t'
  proof -
    from that have "(name', Some t') \<in> set (map ?g us1)" by (simp add: pre)
    then have m: "(name', t') \<in> set us1" by auto
    with that have "(name', t') \<in> set us" by (simp add: us1)
    then have "t' \<noteq> snd f" using us by fastforce
    moreover have "(name', t') \<in> set ?new" using m that by (simp add: stats)
    then have "t' \<le> snd f" using mx by fastforce
    ultimately show ?thesis by simp
  qed
  have le: "t' \<le> snd f"
    if "(name', Some t') \<in> set post \<and> endsWith name' (ascii ''.jsonl'') \<and> after < t'" for name' t'
  proof -
    from that have "(name', Some t') \<in> set (map ?g vs1)" by (simp add: post)
    then have m: "(name', t') \<in> set vs1" by auto
    then have "(name', t') \<in> set ?new" using that by (simp add: stats)
    then show ?thesis using mx by fastforce
  qed
  have e: "?E (?g f)"
  proof -
    have "?g f \<in> set ?logs" by (simp add: logs)
    then show ?thesis by simp
  qed
  have "after < snd f" using fq by simp
  then show ?thesis using entries e n lt le by (metis fst_conv)
qed

section \<open>The polling capture\<close>

lemma checkForSession_abort:
  "map_of (terminals m) (terminalId task) = None \<Longrightarrow> checkForSession m task = (m, None)"
  "map_of (terminals m) (terminalId task) = Some r \<Longrightarrow> \<not> isClaudeMode (heap m r) \<Longrightarrow>
   checkForSession m task = (m, None)"
  "map_of (terminals m) (terminalId task) = Some r \<Longrightarrow> truthy (claudeSessionId (heap m r)) \<Longrightarrow>
   checkForSession m task = (m, None)"
  by (simp_all add: checkForSession_def Let_def)

lemma checkForSession_live:
  assumes "map_of (terminals m) (terminalId task) = Some r" and "isClaudeMode (heap m r)"
    and "\<not> truthy (claudeSessionId (heap m r))"
  shows "checkForSession m task =
     (case findClaudeSessionAfter (claudeDir m) (taskPath task) (startTime task) of
        Some s \<Rightarrow>
          if s \<noteq> [] then (adoptSessionId m r (terminalId task) s, None)
          else if attempts task + 1 < maxAttempts
          then (m, Some (task\<lparr>attempts := attempts task + 1, due := now m + 1000\<rparr>))
          else (m, None)
      | None \<Rightarrow>
          if attempts task + 1 < maxAttempts
          then (m, Some (task\<lparr>attempts := attempts task + 1, due := now m + 1000\<rparr>))
          else (m, None))"
  using assms by (simp add: checkForSession_def Let_def split: option.splits)

lemma checkForSession_rearm:
  assumes "checkForSession m task = (m', Some task')"
  shows "m' = m \<and> task' = task\<lparr>attempts := attempts task + 1, due := now m + 1000\<rparr>
         \<and> attempts task + 1 < maxAttempts"
  using assms by (auto simp: checkForSession_def Let_def split: option.splits if_splits)

lemma pollCapture_bound:
  "attempts task < maxAttempts \<Longrightarrow> snd (pollCapture between m task) + attempts task \<le> maxAttempts"
proof (induction between m task rule: pollCapture.induct)
  case (1 between m task)
  obtain m' again where c: "checkForSession (between task m) task = (m', again)"
    by (cases "checkForSession (between task m) task")
  show ?case
  proof (cases again)
    case None
    with c "1.prems" show ?thesis by (simp add: pollCapture.simps [of between m task])
  next
    case (Some task')
    with c have r: "attempts task' = attempts task + 1" "attempts task' < maxAttempts"
      using checkForSession_rearm [of "between task m" task m' task'] by auto
    have "snd (pollCapture between m' task') + attempts task' \<le> maxAttempts"
      using "1.IH" [OF c [symmetric] Some r(2)] .
    then show ?thesis using c Some r
      by (auto simp: pollCapture.simps [of between m task] split: prod.splits)
  qed
qed

lemma captureClaudeSessionId_arms:
  "captureClaudeSessionId m i path start =
     (if map_of (terminals m) i = None then None
      else Some \<lparr>terminalId = i, taskPath = path, startTime = start, attempts = 0, due = now m + 2000\<rparr>)"
  by (simp add: captureClaudeSessionId_def split: option.splits)

lemma invokeClaude_arms:
  assumes "map_of (terminals m) i = Some r"
    and "orElse dir (orElse (projectPath (heap m r)) (cwd (heap m r))) \<noteq> []"
  shows "snd (invokeClaude m i dir) =
     Some \<lparr>terminalId = i,
           taskPath = orElse dir (orElse (projectPath (heap m r)) (cwd (heap m r))),
           startTime = now m, attempts = 0, due = now m + 2000\<rparr>"
  using assms
  by (simp add: invokeClaude_def Let_def captureClaudeSessionId_def update_def send_def ptyWrite_def
      saveSession_def getSession_def split: option.splits)


lemma maxAttempts_ten: "maxAttempts = 10"
  by (simp add: maxAttempts_def)

text \<open>
  Claim C6. \<open>captureClaudeSessionId\<close> arms one timer, due 2000 ms after the call, unless
  the terminal is unknown; called by \<open>invokeClaude\<close>, its anchor is the time of the call.
  A probe leaves the state alone and arms no timer when the terminal is gone, is not in
  assistant mode, or has a session id. Otherwise it scans: the scan gives nothing when the
  directory is missing or holds no log file modified after the anchor, and otherwise a
  log file modified after the anchor with the greatest modification time. On a find the
  probe adopts the id and stops; on no find it arms a timer of 1000 ms when fewer than
  ten probes have run, and stops with the state unchanged at the tenth. Whatever
  happens between the probes, a capture runs at most ten of them.
  The scan is also complete: when the directory exists, the modification time of every
  log file can be read and some log file is modified after the anchor, the scan gives an
  id, and that id is the name (without the first \<open>.jsonl\<close>) of the first file in the
  listing among those log files modified after the anchor that have the greatest
  modification time. When the modification time of a log file cannot be read, the scan
  gives nothing.
\<close>

theorem polling_capture_bounded:
  "captureClaudeSessionId m i path start =
     (if map_of (terminals m) i = None then None
      else Some \<lparr>terminalId = i, taskPath = path, startTime = start, attempts = 0, due = now m + 2000\<rparr>)
   \<and> (map_of (terminals m) i = Some r
        \<and> orElse dir (orElse (projectPath (heap m r)) (cwd (heap m r))) \<noteq> [] \<longrightarrow>
      snd (invokeClaude m i dir) =
        Some \<lparr>terminalId = i,
              taskPath = orElse dir (orElse (projectPath (heap m r)) (cwd (heap m r))),
              startTime = now m, attempts = 0, due = now m + 2000\<rparr>)
   \<and> (map_of (terminals m) (terminalId task) = None \<longrightarrow> checkForSession m task = (m, None))
   \<and> (map_of (terminals m) (terminalId task) = Some r
        \<and> (\<not> isClaudeMode (heap m r) \<or> truthy (claudeSessionId (heap m r))) \<longrightarrow>
      checkForSession m task = (m, None))
   \<and> (map_of (terminals m) (terminalId task) = Some r \<and> isClaudeMode (heap m r)
        \<and> \<not> truthy (claudeSessionId (heap m r)) \<longrightarrow>
      checkForSession m task =
        (case findClaudeSessionAfter (claudeDir m) (taskPath task) (startTime task) of
           Some s \<Rightarrow>
             if s \<noteq> [] then (adoptSessionId m r (terminalId task) s, None)
             else if attempts task + 1 < 10
             then (m, Some (task\<lparr>attempts := attempts task + 1, due := now m + 1000\<rparr>))
             else (m, None)
         | None \<Rightarrow>
             if attempts task + 1 < 10
             then (m, Some (task\<lparr>attempts := attempts task + 1, due := now m + 1000\<rparr>))
             else (m, None)))
   \<and> (fs p = None \<longrightarrow> findClaudeSessionAfter fs p after = None)
   \<and> (fs p = Some entries
        \<and> (\<forall>name t. (name, Some t) \<in> set entries \<and> endsWith name (ascii ''.jsonl'') \<longrightarrow> t \<le> after)
        \<longrightarrow> findClaudeSessionAfter fs p after = None)
   \<and> (fs p = Some entries \<and> findClaudeSessionAfter fs p after = Some n \<longrightarrow>
        (\<exists>name t. (name, Some t) \<in> set entries \<and> endsWith name (ascii ''.jsonl'') \<and> after < t
           \<and> n = replaceFirst (ascii ''.jsonl'') [] name
           \<and> (\<forall>name' t'. (name', Some t') \<in> set entries \<and> endsWith name' (ascii ''.jsonl'') \<and> after < t'
                  \<longrightarrow> t' \<le> t)))
   \<and> (attempts task < 10 \<longrightarrow> snd (pollCapture between m task) + attempts task \<le> 10)
   \<and> (captureClaudeSessionId m i path start = Some task \<longrightarrow> snd (pollCapture between m task) \<le> 10)
   \<and> (fs p = Some entries
        \<and> (\<forall>name. (name, None) \<in> set entries \<longrightarrow> \<not> endsWith name (ascii ''.jsonl''))
        \<and> (\<exists>name t. (name, Some t) \<in> set entries \<and> endsWith name (ascii ''.jsonl'') \<and> after < t)
        \<longrightarrow> (\<exists>found. findClaudeSessionAfter fs p after = Some found))
   \<and> (fs p = Some entries
        \<and> (\<exists>name. (name, None) \<in> set entries \<and> endsWith name (ascii ''.jsonl''))
        \<longrightarrow> findClaudeSessionAfter fs p after = None)
   \<and> (fs p = Some entries \<and> findClaudeSessionAfter fs p after = Some n \<longrightarrow>
        (\<exists>pre name t post. entries = pre @ (name, Some t) # post
           \<and> endsWith name (ascii ''.jsonl'') \<and> after < t
           \<and> n = replaceFirst (ascii ''.jsonl'') [] name
           \<and> (\<forall>name' t'. (name', Some t') \<in> set pre \<and> endsWith name' (ascii ''.jsonl'') \<and> after < t'
                  \<longrightarrow> t' < t)
           \<and> (\<forall>name' t'. (name', Some t') \<in> set post \<and> endsWith name' (ascii ''.jsonl'') \<and> after < t'
                  \<longrightarrow> t' \<le> t)))"
proof -
  have complete: "\<exists>found. findClaudeSessionAfter fs p after = Some found"
    if "fs p = Some entries
        \<and> (\<forall>name. (name, None) \<in> set entries \<longrightarrow> \<not> endsWith name (ascii ''.jsonl''))
        \<and> (\<exists>name t. (name, Some t) \<in> set entries \<and> endsWith name (ascii ''.jsonl'') \<and> after < t)"
    using that scan_complete [of fs p entries] by blast
  have throws: "findClaudeSessionAfter fs p after = None"
    if "fs p = Some entries
        \<and> (\<exists>name. (name, None) \<in> set entries \<and> endsWith name (ascii ''.jsonl''))"
    using that scan_stat_throws [of fs p entries] by blast
  have first: "\<exists>pre name t post. entries = pre @ (name, Some t) # post
           \<and> endsWith name (ascii ''.jsonl'') \<and> after < t
           \<and> n = replaceFirst (ascii ''.jsonl'') [] name
           \<and> (\<forall>name' t'. (name', Some t') \<in> set pre \<and> endsWith name' (ascii ''.jsonl'') \<and> after < t'
                  \<longrightarrow> t' < t)
           \<and> (\<forall>name' t'. (name', Some t') \<in> set post \<and> endsWith name' (ascii ''.jsonl'') \<and> after < t'
                  \<longrightarrow> t' \<le> t)"
    if "fs p = Some entries \<and> findClaudeSessionAfter fs p after = Some n"
    using that scan_first_newest [of fs p entries after n] by blast
  have bound: "snd (pollCapture between m task) + attempts task \<le> 10" if "attempts task < 10" for task
    using pollCapture_bound [of task between m] that by (simp add: maxAttempts_ten)
  have fresh: "snd (pollCapture between m task) \<le> 10"
    if "captureClaudeSessionId m i path start = Some task"
  proof -
    from that have "attempts task = 0"
      by (auto simp: captureClaudeSessionId_arms split: if_splits)
    with bound [of task] show ?thesis by simp
  qed
  have live: "checkForSession m task =
        (case findClaudeSessionAfter (claudeDir m) (taskPath task) (startTime task) of
           Some s \<Rightarrow>
             if s \<noteq> [] then (adoptSessionId m r (terminalId task) s, None)
             else if attempts task + 1 < 10
             then (m, Some (task\<lparr>attempts := attempts task + 1, due := now m + 1000\<rparr>))
             else (m, None)
         | None \<Rightarrow>
             if attempts task + 1 < 10
             then (m, Some (task\<lparr>attempts := attempts task + 1, due := now m + 1000\<rparr>))
             else (m, None))"
    if "map_of (terminals m) (terminalId task) = Some r \<and> isClaudeMode (heap m r)
        \<and> \<not> truthy (claudeSessionId (heap m r))"
    using that checkForSession_live [of m task r] by (simp add: maxAttempts_ten)
  have abort: "checkForSession m task = (m, None)"
    if "map_of (terminals m) (terminalId task) = Some r
        \<and> (\<not> isClaudeMode (heap m r) \<or> truthy (claudeSessionId (heap m r)))"
    using that checkForSession_abort(2,3) [of m task r] by blast
  have inv: "snd (invokeClaude m i dir) =
        Some \<lparr>terminalId = i,
              taskPath = orElse dir (orElse (projectPath (heap m r)) (cwd (heap m r))),
              startTime = now m, attempts = 0, due = now m + 2000\<rparr>"
    if "map_of (terminals m) i = Some r
        \<and> orElse dir (orElse (projectPath (heap m r)) (cwd (heap m r))) \<noteq> []"
    using that invokeClaude_arms [of m i r dir] by blast
  have found: "\<exists>name t. (name, Some t) \<in> set entries \<and> endsWith name (ascii ''.jsonl'') \<and> after < t
           \<and> n = replaceFirst (ascii ''.jsonl'') [] name
           \<and> (\<forall>name' t'. (name', Some t') \<in> set entries \<and> endsWith name' (ascii ''.jsonl'') \<and> after < t'
                  \<longrightarrow> t' \<le> t)"
    if "fs p = Some entries \<and> findClaudeSessionAfter fs p after = Some n"
    using that scan_found [of fs p entries after n] by blast
  have none: "findClaudeSessionAfter fs p after = None"
    if "fs p = Some entries
        \<and> (\<forall>name t. (name, Some t) \<in> set entries \<and> endsWith name (ascii ''.jsonl'') \<longrightarrow> t \<le> after)"
    using that scan_nothing_newer [of fs p entries after] by blast
  show ?thesis
    apply (intro conjI)
    subgoal by (rule captureClaudeSessionId_arms)
    subgoal using inv by blast
    subgoal using checkForSession_abort(1) [of m task] by blast
    subgoal using abort by blast
    subgoal using live by blast
    subgoal using scan_missing_directory [of fs p after] by blast
    subgoal using none by blast
    subgoal using found by blast
    subgoal using bound [of task] by blast
    subgoal using fresh by blast
    subgoal using complete by blast
    subgoal using throws by blast
    subgoal using first by blast
    done
qed

lemma scan_example:
  "findClaudeSessionAfter (claudeDir scanWorld) (ascii ''/proj'') 100000 = Some (ascii ''s-42'')"
  "findClaudeSessionAfter (claudeDir scanWorld) (ascii ''/proj'') 100500 = None"
  "findClaudeSessionAfter (claudeDir scanWorld) (ascii ''/proj'') 98000 = Some (ascii ''s-42'')"
  by (simp_all add: findClaudeSessionAfter_def scanWorld_def exampleWorld_def endsWith_def ascii_def)


lemma claudeDir_claudeExample: "claudeDir claudeExample = (\<lambda>_. None)"
  by (simp add: claudeExample_def invokeClaude_def example_defs update_def send_def ptyWrite_def
      getSession_def captureClaudeSessionId_def)

lemma idle_probe:
  assumes "attempts task < 9" and "terminalId task = ascii ''t1''"
  shows "checkForSession (claudeExample\<lparr>now := t\<rparr>) task =
           (claudeExample\<lparr>now := t\<rparr>, Some (task\<lparr>attempts := attempts task + 1, due := t + 1000\<rparr>))"
  using assms
  by (simp add: checkForSession_def Let_def example_claude claudeDir_claudeExample
      findClaudeSessionAfter_def maxAttempts_def)

lemma last_probe:
  assumes "attempts task = 9" and "terminalId task = ascii ''t1''"
  shows "checkForSession (claudeExample\<lparr>now := t\<rparr>) task = (claudeExample\<lparr>now := t\<rparr>, None)"
  using assms
  by (simp add: checkForSession_def Let_def example_claude claudeDir_claudeExample
      findClaudeSessionAfter_def maxAttempts_def)

lemma idle_run:
  assumes "terminalId task = ascii ''t1''" and "attempts task \<le> 9"
  shows "pollCapture idle (claudeExample\<lparr>now := t\<rparr>) task
           = (claudeExample\<lparr>now := due task + 1000 * int (9 - attempts task)\<rparr>, 10 - attempts task)"
  using assms
proof (induction "9 - attempts task" arbitrary: task t)
  case 0
  then have a: "attempts task = 9" by simp
  show ?case
    using last_probe [OF a "0.prems"(1), of "due task"] a
    by (subst pollCapture.simps) (simp add: idle_def)
next
  case (Suc k)
  then have a: "attempts task < 9" by simp
  let ?task' = "task\<lparr>attempts := attempts task + 1, due := due task + 1000\<rparr>"
  have k: "k = 9 - attempts ?task'" using Suc.hyps(2) by simp
  have "pollCapture idle (claudeExample\<lparr>now := due task\<rparr>) ?task'
          = (claudeExample\<lparr>now := due ?task' + 1000 * int (9 - attempts ?task')\<rparr>, 10 - attempts ?task')"
    using Suc.hyps(1) [OF k, of "due task"] Suc.prems a by simp
  then show ?case
    using idle_probe [OF a Suc.prems(1), of "due task"] a
    by (subst pollCapture.simps) (simp add: idle_def algebra_simps)
qed

theorem polling_capture_bounded_witness:
  "map_of (terminals claudeExample) (ascii ''t1'') = Some 0
   \<and> isClaudeMode (heap claudeExample 0) \<and> \<not> truthy (claudeSessionId (heap claudeExample 0))
   \<and> captureClaudeSessionId claudeExample (ascii ''t1'') (ascii ''/proj'') 100000
       = Some \<lparr>terminalId = ascii ''t1'', taskPath = ascii ''/proj'', startTime = 100000,
               attempts = 0, due = 102000\<rparr>
   \<and> snd (pollCapture idle claudeExample
        \<lparr>terminalId = ascii ''t1'', taskPath = ascii ''/proj'', startTime = 100000,
         attempts = 0, due = 102000\<rparr>) \<le> 10
   \<and> pollCapture idle claudeExample
        \<lparr>terminalId = ascii ''t1'', taskPath = ascii ''/proj'', startTime = 100000,
         attempts = 0, due = 102000\<rparr> = (claudeExample\<lparr>now := 111000\<rparr>, 10)
   \<and> claudeDir scanWorld (ascii ''/proj'')
       = Some [(ascii ''old.jsonl'', Some 99000), (ascii ''s-42.jsonl'', Some 100500),
               (ascii ''notes.txt'', Some 200000)]
   \<and> findClaudeSessionAfter (claudeDir scanWorld) (ascii ''/proj'') 100000 = Some (ascii ''s-42'')
   \<and> findClaudeSessionAfter (claudeDir scanWorld) (ascii ''/proj'') 98000 = Some (ascii ''s-42'')"
proof -
  let ?task = "\<lparr>terminalId = ascii ''t1'', taskPath = ascii ''/proj'', startTime = 100000,
         attempts = 0, due = 102000\<rparr>"
  have k: "map_of (terminals claudeExample) (ascii ''t1'') = Some 0"
    and mode: "isClaudeMode (heap claudeExample 0)"
    and none: "\<not> truthy (claudeSessionId (heap claudeExample 0))"
    by (simp_all add: example_claude)
  have c: "captureClaudeSessionId claudeExample (ascii ''t1'') (ascii ''/proj'') 100000 = Some ?task"
    by (simp add: captureClaudeSessionId_def example_claude)
  have b: "snd (pollCapture idle claudeExample ?task) \<le> 10"
    using polling_capture_bounded [of claudeExample "ascii ''t1''" "ascii ''/proj''" 100000 0 None ?task
        "claudeDir scanWorld" "ascii ''/proj''" 100000 "[]" "[]" idle] c
    by blast
  have n: "claudeExample\<lparr>now := 100000\<rparr> = claudeExample"
    using example_claude(4) by (metis TerminalManager.surjective TerminalManager.update_convs(12))
  have r: "pollCapture idle claudeExample ?task = (claudeExample\<lparr>now := 111000\<rparr>, 10)"
    using idle_run [of ?task 100000] by (simp add: n)
  have d: "claudeDir scanWorld (ascii ''/proj'')
       = Some [(ascii ''old.jsonl'', Some 99000), (ascii ''s-42.jsonl'', Some 100500),
               (ascii ''notes.txt'', Some 200000)]"
    by (simp add: scanWorld_def)
  show ?thesis using k mode none c b r d scan_example(1,3) by blast
qed

section \<open>restore\<close>

lemma restoreResume_arms:
  assumes "map_of (terminals m) (session_id session) \<noteq> None"
    and "\<not> truthy (session_claudeSessionId session)"
    and "orElse (Some (session_cwd session)) (session_projectPath session) \<noteq> []"
  shows "snd (snd (restoreResume m r session)) =
           Some \<lparr>terminalId = session_id session,
                 taskPath = orElse (Some (session_cwd session)) (session_projectPath session),
                 startTime = now m, attempts = 0, due = now m + 2000\<rparr>"
  using assms
  by (auto simp: restoreResume_def Let_def captureClaudeSessionId_def update_def ptyWrite_def send_def)

lemma restoreBegin_suspends:
  assumes "map_of (terminals m) (session_id session) \<noteq> None \<or> spawnThrows m = None"
    and "session_isClaudeMode session"
  shows "\<exists>r m2. restoreBegin m session cols rows = Inr (r, m2)
           \<and> map_of (terminals m2) (session_id session) = Some r \<and> now m2 = now m"
proof (cases "map_of (terminals m) (session_id session)")
  case None
  with assms(1) have ok: "spawnThrows m = None" by simp
  let ?o = "\<lparr>opt_id = session_id session, opt_cwd = Some (session_cwd session),
                     opt_cols = Some cols, opt_rows = Some rows,
                     opt_projectPath = Some (session_projectPath session)\<rparr>"
  have f: "map_of (terminals m) (opt_id ?o) = None" using None by simp
  obtain res m1 where c: "create m ?o = (res, m1)" by (cases "create m ?o")
  have 1: "res = okResult" using create_fresh(1) [OF f ok] c by simp
  have 2: "terminals m1 = terminals m @ [(session_id session, nextRef m)]"
    using create_fresh(2) [OF f ok] c by simp
  have 3: "now m1 = now m"
    using c None ok by (auto simp: create_def createWith_def Let_def saveSession_def split: if_splits)
  have 4: "map_of (terminals m1) (session_id session) = Some (nextRef m)"
    using None by (simp add: 2 map_add_def)
  show ?thesis
    using assms(2) c 1 4 3 by (simp add: restoreBegin_def okResult_def Let_def update_def)
next
  case (Some r)
  then show ?thesis
    using assms(2) by (simp add: restoreBegin_def create_def createWith_def Let_def okResult_def update_def)
qed

text \<open>
  Claim C7, as the code has it. When \<open>restore\<close> resumes a session that was in assistant
  mode and has no known assistant session id, the polling capture it begins is anchored
  at the reading of the clock after the settle delay, taken just before the resume
  command is written to the pty; the first probe is due 2000 ms after that reading.
\<close>

theorem restore_anchor_after_delay:
  "(map_of (terminals m) (session_id session) \<noteq> None
      \<and> \<not> truthy (session_claudeSessionId session)
      \<and> orElse (Some (session_cwd session)) (session_projectPath session) \<noteq> [] \<longrightarrow>
    snd (snd (restoreResume m r session)) =
      Some \<lparr>terminalId = session_id session,
            taskPath = orElse (Some (session_cwd session)) (session_projectPath session),
            startTime = now m, attempts = 0, due = now m + 2000\<rparr>)
   \<and> ((map_of (terminals m) (session_id session) \<noteq> None \<or> spawnThrows m = None)
      \<and> session_isClaudeMode session
      \<and> \<not> truthy (session_claudeSessionId session)
      \<and> orElse (Some (session_cwd session)) (session_projectPath session) \<noteq> []
      \<and> (\<forall>x. terminals (settle x) = terminals x \<and> now (settle x) = resumedAt) \<longrightarrow>
    snd (snd (restore settle m session cols rows)) =
      Some \<lparr>terminalId = session_id session,
            taskPath = orElse (Some (session_cwd session)) (session_projectPath session),
            startTime = resumedAt, attempts = 0, due = resumedAt + 2000\<rparr>)"
proof -
  have a: "snd (snd (restoreResume m r session)) =
      Some \<lparr>terminalId = session_id session,
            taskPath = orElse (Some (session_cwd session)) (session_projectPath session),
            startTime = now m, attempts = 0, due = now m + 2000\<rparr>"
    if "map_of (terminals m) (session_id session) \<noteq> None
      \<and> \<not> truthy (session_claudeSessionId session)
      \<and> orElse (Some (session_cwd session)) (session_projectPath session) \<noteq> []"
    using that restoreResume_arms [of m session r] by blast
  have b: "snd (snd (restore settle m session cols rows)) =
      Some \<lparr>terminalId = session_id session,
            taskPath = orElse (Some (session_cwd session)) (session_projectPath session),
            startTime = resumedAt, attempts = 0, due = resumedAt + 2000\<rparr>"
    if h: "(map_of (terminals m) (session_id session) \<noteq> None \<or> spawnThrows m = None)
      \<and> session_isClaudeMode session
      \<and> \<not> truthy (session_claudeSessionId session)
      \<and> orElse (Some (session_cwd session)) (session_projectPath session) \<noteq> []
      \<and> (\<forall>x. terminals (settle x) = terminals x \<and> now (settle x) = resumedAt)"
  proof -
    from h restoreBegin_suspends [of m session cols rows] obtain r' m2 where
      s: "restoreBegin m session cols rows = Inr (r', m2)"
      and k: "map_of (terminals m2) (session_id session) = Some r'"
      by blast
    have k': "map_of (terminals (settle m2)) (session_id session) \<noteq> None" using h k by simp
    have "snd (snd (restoreResume (settle m2) r' session)) =
      Some \<lparr>terminalId = session_id session,
            taskPath = orElse (Some (session_cwd session)) (session_projectPath session),
            startTime = now (settle m2), attempts = 0, due = now (settle m2) + 2000\<rparr>"
      using restoreResume_arms [OF k'] h by blast
    then show ?thesis using s h by (simp add: restore_def)
  qed
  show ?thesis using a b by blast
qed

lemma scan_example_late:
  "findClaudeSessionAfter (claudeDir scanWorld) (ascii ''/proj'') 101000 = None"
  by (simp add: findClaudeSessionAfter_def scanWorld_def exampleWorld_def endsWith_def ascii_def)

lemma pickerSession_fields:
  "session_id pickerSession = ascii ''t1''"
  "session_isClaudeMode pickerSession"
  "\<not> truthy (session_claudeSessionId pickerSession)"
  "orElse (Some (session_cwd pickerSession)) (session_projectPath pickerSession) = ascii ''/proj''"
  "ascii ''/proj'' \<noteq> []"
  by (simp_all add: pickerSession_def ascii_def)

lemma scanWorld_fields:
  "spawnThrows (newTerminalManager scanWorld) = None"
  "now (newTerminalManager scanWorld) = 100000"
  "claudeDir (newTerminalManager scanWorld) = claudeDir scanWorld"
  by (simp_all add: newTerminalManager_def scanWorld_def exampleWorld_def)

theorem restore_anchor_after_delay_witness:
  "spawnThrows (newTerminalManager scanWorld) = None
   \<and> session_isClaudeMode pickerSession \<and> \<not> truthy (session_claudeSessionId pickerSession)
   \<and> now (newTerminalManager scanWorld) = 100000
   \<and> snd (snd (restore (\<lambda>x. x\<lparr>now := 101000\<rparr>) (newTerminalManager scanWorld) pickerSession 80 24))
       = Some \<lparr>terminalId = ascii ''t1'', taskPath = ascii ''/proj'', startTime = 101000,
               attempts = 0, due = 103000\<rparr>"
proof -
  have h: "\<forall>x. terminals ((\<lambda>x. x\<lparr>now := 101000\<rparr>) x) = terminals x
              \<and> now ((\<lambda>x. x\<lparr>now := 101000\<rparr>) x) = 101000"
    by simp
  note w = restore_anchor_after_delay [of "newTerminalManager scanWorld" pickerSession 0
      "\<lambda>x. x\<lparr>now := 101000\<rparr>" 101000 80 24, THEN conjunct2, rule_format]
  have "snd (snd (restore (\<lambda>x. x\<lparr>now := 101000\<rparr>) (newTerminalManager scanWorld) pickerSession 80 24))
       = Some \<lparr>terminalId = session_id pickerSession,
               taskPath = orElse (Some (session_cwd pickerSession)) (session_projectPath pickerSession),
               startTime = 101000, attempts = 0, due = 101000 + 2000\<rparr>"
    by (rule w) (simp add: scanWorld_fields pickerSession_fields del: orElse.simps)
  then show ?thesis by (simp add: scanWorld_fields pickerSession_fields del: orElse.simps)
qed

text \<open>
  The claim as stated fails: \<open>restore\<close> is called at time 100000, the delay ends at
  101000, and the capture is anchored at 101000. A log file written at 100500, during
  the delay, is newer than the time of the call and not newer than the anchor.
\<close>

theorem restore_anchor_not_before_delay:
  "now (newTerminalManager scanWorld) = 100000
   \<and> map_option startTime
        (snd (snd (restore (\<lambda>x. x\<lparr>now := 101000\<rparr>) (newTerminalManager scanWorld) pickerSession 80 24)))
       = Some 101000
   \<and> claudeDir scanWorld (ascii ''/proj'')
       = Some [(ascii ''old.jsonl'', Some 99000), (ascii ''s-42.jsonl'', Some 100500),
               (ascii ''notes.txt'', Some 200000)]
   \<and> findClaudeSessionAfter (claudeDir scanWorld) (ascii ''/proj'') 100000 = Some (ascii ''s-42'')
   \<and> findClaudeSessionAfter (claudeDir scanWorld) (ascii ''/proj'') 101000 = None"
proof -
  have "snd (snd (restore (\<lambda>x. x\<lparr>now := 101000\<rparr>) (newTerminalManager scanWorld) pickerSession 80 24))
       = Some \<lparr>terminalId = ascii ''t1'', taskPath = ascii ''/proj'', startTime = 101000,
               attempts = 0, due = 103000\<rparr>"
    by (simp add: restore_def restoreBegin_def restoreResume_def create_def createWith_def newTerminalManager_def
        scanWorld_def exampleWorld_def pickerSession_def Let_def saveSession_def okResult_def
        update_def ptyWrite_def send_def captureClaudeSessionId_def ascii_def)
  then show ?thesis
    by (simp add: scanWorld_fields scan_example scan_example_late) (simp add: scanWorld_def)
qed

section \<open>The assistant session id\<close>

lemma sessionId_onData:
  "claudeSessionId (heap (onData m r d) r') =
     (if r' = r \<and> isClaudeMode (heap m r) \<and> \<not> truthy (claudeSessionId (heap m r))
      then (case extractClaudeSessionId d of None \<Rightarrow> claudeSessionId (heap m r) | Some s \<Rightarrow> Some s)
      else claudeSessionId (heap m r'))"
proof -
  have e: "extractClaudeSessionId d = Some s \<Longrightarrow> s \<noteq> []" for s using extract_token by blast
  show ?thesis
    by (auto simp: onData_def Let_def captureFromOutput_def heap_adoptSessionId appendOutput_def
        update_def dest: e split: option.splits)
qed

lemma sessionId_checkForSession:
  "claudeSessionId (heap (fst (checkForSession m task)) r') = claudeSessionId (heap m r')
   \<or> (\<exists>s. s \<noteq> [] \<and> map_of (terminals m) (terminalId task) = Some r' \<and> isClaudeMode (heap m r')
          \<and> \<not> truthy (claudeSessionId (heap m r'))
          \<and> claudeSessionId (heap (fst (checkForSession m task)) r') = Some s)"
  by (auto simp: checkForSession_def Let_def heap_adoptSessionId split: option.splits)

lemma sessionId_discover:
  "truthy (claudeSessionId (heap m r')) \<Longrightarrow>
   claudeSessionId (heap (discover m ev) r') = claudeSessionId (heap m r')"
proof (cases ev)
  case (Chunk r d)
  assume "truthy (claudeSessionId (heap m r'))"
  then show ?thesis by (auto simp: Chunk sessionId_onData)
next
  case (Probe task)
  assume "truthy (claudeSessionId (heap m r'))"
  then show ?thesis using sessionId_checkForSession [of m task r'] by (auto simp: Probe)
next
  case (Tick t)
  then show ?thesis by simp
next
  case (Files fs)
  then show ?thesis by simp
qed

lemma sessionId_run:
  "truthy (claudeSessionId (heap m r')) \<Longrightarrow>
   claudeSessionId (heap (foldl discover m evs) r') = claudeSessionId (heap m r')"
proof (induction evs arbitrary: m)
  case Nil
  then show ?case by simp
next
  case (Cons ev evs)
  have "truthy (claudeSessionId (heap (discover m ev) r'))"
    using Cons.prems by (simp add: sessionId_discover)
  then show ?case using Cons.IH [of "discover m ev"] Cons.prems by (simp add: sessionId_discover)
qed

lemma sessionId_other_commands:
  "r' \<noteq> nextRef m \<Longrightarrow> claudeSessionId (heap (snd (create m options)) r') = claudeSessionId (heap m r')"
  "claudeSessionId (heap (snd (destroy m i)) r') = claudeSessionId (heap m r')"
  "claudeSessionId (heap (write_terminal m i d) r') = claudeSessionId (heap m r')"
  "claudeSessionId (heap (resize m i cols rows) r') = claudeSessionId (heap m r')"
  "claudeSessionId (heap (setTitle m i t) r') = claudeSessionId (heap m r')"
  "claudeSessionId (heap (onExit m r code) r') = claudeSessionId (heap m r')"
  "claudeSessionId (heap (persistAllSessions m) r') = claudeSessionId (heap m r')"
  "claudeSessionId (heap (killAll m) r') = claudeSessionId (heap m r')"
  "claudeSessionId (heap (clearSavedSessions m path) r') = claudeSessionId (heap m r')"
  by (auto simp: create_def createWith_def destroy_def write_terminal_def resize_def setTitle_def onExit_def
      persistAllSessions_def killAll_def clearSavedSessions_def Let_def saveSession_def
      removeSession_def ptyKill_def ptyWrite_def ptyResize_def update_def send_def
      split: option.splits)


lemma sessionId_claude_commands:
  assumes "map_of (terminals m) i = Some r"
  shows "claudeSessionId (heap (resumeClaude m i sessionId) r') =
           (if r' = r \<and> truthy sessionId then sessionId else claudeSessionId (heap m r'))"
    and "claudeSessionId (heap (fst (invokeClaude m i dir)) r') =
           (if r' = r then None else claudeSessionId (heap m r'))"
  using assms by (simp_all add: resumeClaude_known(1) invokeClaude_known(1))

lemma claude_commands_unknown:
  assumes "map_of (terminals m) i = None"
  shows "resumeClaude m i sessionId = m" and "fst (invokeClaude m i dir) = m"
  using assms by (simp_all add: resumeClaude_def invokeClaude_def)

lemma sessionId_restoreResume:
  "claudeSessionId (heap (fst (snd (restoreResume m r session))) r') =
     (if r' = r then session_claudeSessionId session else claudeSessionId (heap m r'))"
  by (simp add: restoreResume_def Let_def update_def ptyWrite_def send_def)

lemma sessionId_restoreBegin:
  assumes "r' \<noteq> nextRef m"
  shows "claudeSessionId (heap (case restoreBegin m session cols rows of
                                  Inl x \<Rightarrow> snd x | Inr x \<Rightarrow> snd x) r')
           = claudeSessionId (heap m r')"
proof -
  let ?o = "\<lparr>opt_id = session_id session, opt_cwd = Some (session_cwd session),
                     opt_cols = Some cols, opt_rows = Some rows,
                     opt_projectPath = Some (session_projectPath session)\<rparr>"
  obtain res m1 where c: "create m ?o = (res, m1)" by (cases "create m ?o")
  have "claudeSessionId (heap m1 r') = claudeSessionId (heap m r')"
    using sessionId_other_commands(1) [OF assms, of ?o] c by simp
  then show ?thesis
    by (simp add: restoreBegin_def c Let_def update_def split: option.splits)
qed

lemma extract_example:
  "extractClaudeSessionId (ascii ''Session: abc-123'') = Some (ascii ''abc-123'')"
  by (simp add: extractClaudeSessionId_def pattern_defs)

lemma example_discovered:
  "terminals discoveredExample = [(ascii ''t1'', 0)]"
  "claudeSessionId (heap discoveredExample 0) = Some (ascii ''abc-123'')"
  "ascii ''abc-123'' \<noteq> []"
  by (simp_all add: discoveredExample_def sessionId_onData example_claude extract_example)
     (simp add: ascii_def)

text \<open>
  Claim C3, as the code has it. Once the session id of a terminal is populated, neither
  the output handler nor a probe of the polling capture changes it, and so no run of
  them does; what these two paths write is a non-empty id, into a terminal that had
  none. Of the other operations, \<open>resumeClaude\<close> with an id assigns that id,
  \<open>invokeClaude\<close> clears it, and the second half of \<open>restore\<close> (for a session that was
  in assistant mode) assigns the id of the persisted session, absent when there is none.
  No other operation changes the session id of a terminal.
\<close>

theorem session_id_writers:
  "(truthy (claudeSessionId (heap m r')) \<longrightarrow>
      claudeSessionId (heap (onData m r d) r') = claudeSessionId (heap m r')
      \<and> claudeSessionId (heap (fst (checkForSession m task)) r') = claudeSessionId (heap m r')
      \<and> claudeSessionId (heap (foldl discover m evs) r') = claudeSessionId (heap m r'))
   \<and> (claudeSessionId (heap (onData m r d) r') \<noteq> claudeSessionId (heap m r') \<longrightarrow>
        truthy (claudeSessionId (heap (onData m r d) r')) \<and> \<not> truthy (claudeSessionId (heap m r')))
   \<and> (claudeSessionId (heap (fst (checkForSession m task)) r') \<noteq> claudeSessionId (heap m r') \<longrightarrow>
        truthy (claudeSessionId (heap (fst (checkForSession m task)) r'))
        \<and> \<not> truthy (claudeSessionId (heap m r')))
   \<and> (map_of (terminals m) i = Some r \<longrightarrow>
        claudeSessionId (heap (resumeClaude m i sessionId) r') =
          (if r' = r \<and> truthy sessionId then sessionId else claudeSessionId (heap m r'))
        \<and> claudeSessionId (heap (fst (invokeClaude m i dir)) r') =
            (if r' = r then None else claudeSessionId (heap m r')))
   \<and> (map_of (terminals m) i = None \<longrightarrow> resumeClaude m i sessionId = m \<and> fst (invokeClaude m i dir) = m)
   \<and> claudeSessionId (heap (fst (snd (restoreResume m r session))) r') =
       (if r' = r then session_claudeSessionId session else claudeSessionId (heap m r'))
   \<and> (r' \<noteq> nextRef m \<longrightarrow>
        claudeSessionId (heap (snd (create m options)) r') = claudeSessionId (heap m r')
        \<and> claudeSessionId (heap (case restoreBegin m session cols rows of
                                    Inl x \<Rightarrow> snd x | Inr x \<Rightarrow> snd x) r')
            = claudeSessionId (heap m r'))
   \<and> claudeSessionId (heap (snd (destroy m i)) r') = claudeSessionId (heap m r')
   \<and> claudeSessionId (heap (write_terminal m i d) r') = claudeSessionId (heap m r')
   \<and> claudeSessionId (heap (resize m i cols rows) r') = claudeSessionId (heap m r')
   \<and> claudeSessionId (heap (setTitle m i newTitle) r') = claudeSessionId (heap m r')
   \<and> claudeSessionId (heap (onExit m r code) r') = claudeSessionId (heap m r')
   \<and> claudeSessionId (heap (persistAllSessions m) r') = claudeSessionId (heap m r')
   \<and> claudeSessionId (heap (killAll m) r') = claudeSessionId (heap m r')
   \<and> claudeSessionId (heap (clearSavedSessions m path) r') = claudeSessionId (heap m r')"
proof -
  have e: "extractClaudeSessionId d = Some s \<Longrightarrow> s \<noteq> []" for s using extract_token by blast
  have a: "claudeSessionId (heap (onData m r d) r') = claudeSessionId (heap m r')
      \<and> claudeSessionId (heap (fst (checkForSession m task)) r') = claudeSessionId (heap m r')
      \<and> claudeSessionId (heap (foldl discover m evs) r') = claudeSessionId (heap m r')"
    if t: "truthy (claudeSessionId (heap m r'))"
    using t sessionId_checkForSession [of m task r'] sessionId_run [OF t, of evs]
    by (auto simp: sessionId_onData)
  have b: "truthy (claudeSessionId (heap (onData m r d) r')) \<and> \<not> truthy (claudeSessionId (heap m r'))"
    if "claudeSessionId (heap (onData m r d) r') \<noteq> claudeSessionId (heap m r')"
    using that by (auto simp: sessionId_onData dest: e split: if_splits option.splits)
  have c: "truthy (claudeSessionId (heap (fst (checkForSession m task)) r'))
        \<and> \<not> truthy (claudeSessionId (heap m r'))"
    if "claudeSessionId (heap (fst (checkForSession m task)) r') \<noteq> claudeSessionId (heap m r')"
    using that sessionId_checkForSession [of m task r'] by auto
  have f: "claudeSessionId (heap (snd (create m options)) r') = claudeSessionId (heap m r')
        \<and> claudeSessionId (heap (case restoreBegin m session cols rows of
                                    Inl x \<Rightarrow> snd x | Inr x \<Rightarrow> snd x) r')
            = claudeSessionId (heap m r')"
    if "r' \<noteq> nextRef m"
    using sessionId_other_commands(1) [OF that] sessionId_restoreBegin [OF that] by blast
  show ?thesis
    apply (intro conjI impI)
    subgoal using a by blast
    subgoal using a by blast
    subgoal using a by blast
    subgoal using b by blast
    subgoal using b by blast
    subgoal using c by blast
    subgoal using c by blast
    subgoal by (rule sessionId_claude_commands(1))
    subgoal by (rule sessionId_claude_commands(2))
    subgoal by (rule claude_commands_unknown(1))
    subgoal by (rule claude_commands_unknown(2))
    subgoal by (rule sessionId_restoreResume)
    subgoal using f by blast
    subgoal using f by blast
    subgoal by (rule sessionId_other_commands(2))
    subgoal by (rule sessionId_other_commands(3))
    subgoal by (rule sessionId_other_commands(4))
    subgoal by (rule sessionId_other_commands(5))
    subgoal by (rule sessionId_other_commands(6))
    subgoal by (rule sessionId_other_commands(7))
    subgoal by (rule sessionId_other_commands(8))
    subgoal by (rule sessionId_other_commands(9))
    done
qed

theorem session_id_writers_witness:
  "truthy (claudeSessionId (heap discoveredExample 0))
   \<and> claudeSessionId (heap discoveredExample 0) = Some (ascii ''abc-123'')
   \<and> claudeSessionId (heap (onData discoveredExample 0 (ascii ''Session: zzz-9'')) 0)
       = Some (ascii ''abc-123'')
   \<and> claudeSessionId (heap (foldl discover discoveredExample
        [Tick 100500, Chunk 0 (ascii ''Session: zzz-9''),
         Probe \<lparr>terminalId = ascii ''t1'', taskPath = ascii ''/proj'', startTime = 100000,
                attempts = 0, due = 102000\<rparr>]) 0)
       = Some (ascii ''abc-123'')
   \<and> map_of (terminals discoveredExample) (ascii ''t1'') = Some 0
   \<and> claudeSessionId (heap (resumeClaude discoveredExample (ascii ''t1'') (Some (ascii ''abc-123''))) 0)
       = Some (ascii ''abc-123'')
   \<and> claudeSessionId (heap (fst (invokeClaude discoveredExample (ascii ''t1'') None)) 0) = None"
proof -
  have t: "truthy (claudeSessionId (heap discoveredExample 0))"
    by (simp add: example_discovered)
  have k: "map_of (terminals discoveredExample) (ascii ''t1'') = Some 0"
    by (simp add: example_discovered)
  note w = session_id_writers [where m = discoveredExample and r' = 0 and r = 0
      and d = "ascii ''Session: zzz-9''"
      and task = "\<lparr>terminalId = ascii ''t1'', taskPath = ascii ''/proj'', startTime = 100000,
                attempts = 0, due = 102000\<rparr>"
      and evs = "[Tick 100500, Chunk 0 (ascii ''Session: zzz-9''),
         Probe \<lparr>terminalId = ascii ''t1'', taskPath = ascii ''/proj'', startTime = 100000,
                attempts = 0, due = 102000\<rparr>]"
      and i = "ascii ''t1''" and sessionId = "Some (ascii ''abc-123'')" and dir = None]
  show ?thesis using t k w example_discovered(2,3) by simp
qed

text \<open>
  The claim as stated fails on \<open>restore\<close>: called for a terminal that is live and whose
  session id was found in its output, it replaces that id by the persisted one.
\<close>

theorem restore_overwrites_session_id:
  "claudeSessionId (heap discoveredExample 0) = Some (ascii ''abc-123'')
   \<and> claudeSessionId (heap (fst (snd (restore (\<lambda>x. x) discoveredExample savedSession 80 24))) 0)
       = Some (ascii ''old-9'')"
proof -
  have b: "restoreBegin discoveredExample savedSession 80 24 =
             Inr (0, update discoveredExample 0 (\<lambda>t. t\<lparr>title := session_title savedSession\<rparr>))"
    by (simp add: restoreBegin_def create_def createWith_def Let_def okResult_def example_discovered(1)
        savedSession_def pickerSession_def)
  show ?thesis
    by (simp add: restore_def b sessionId_restoreResume example_discovered(2))
       (simp add: savedSession_def)
qed

section \<open>The registry stays well-formed\<close>

lemma distinct_deleteKey:
  "distinct (map fst ts) \<Longrightarrow> distinct (map fst (deleteKey i ts))"
  by (simp add: deleteKey_def distinct_map_filter)

lemma set_deleteKey: "set (deleteKey i ts) \<subseteq> set ts"
  by (auto simp: deleteKey_def)

lemma registryOk_new: "registryOk (newTerminalManager world)"
  by (simp add: registryOk_def newTerminalManager_def)

lemma registryOk_create:
  assumes "registryOk m"
  shows "registryOk (snd (create m options))"
proof (cases "map_of (terminals m) (opt_id options) = None \<and> spawnThrows m = None")
  case True
  then have fresh: "map_of (terminals m) (opt_id options) = None" and ok: "spawnThrows m = None"
    by auto
  have k: "opt_id options \<notin> fst ` set (terminals m)"
    using fresh by (simp add: map_of_eq_None_iff)
  have n: "nextRef (snd (create m options)) = Suc (nextRef m)"
    using fresh ok by (simp add: create_def createWith_def Let_def saveSession_def split: option.splits)
  show ?thesis
    using assms k
    by (auto simp: registryOk_def create_fresh(2,3) [OF fresh ok] n)
next
  case False
  then have "snd (create m options) = m"
    by (auto simp: create_def createWith_def Let_def split: option.splits)
  with assms show ?thesis by simp
qed

lemma registryOk_subset:
  assumes "registryOk m" and "distinct (map fst (terminals m'))"
    and "set (terminals m') \<subseteq> set (terminals m)" and "nextRef m' = nextRef m"
    and "\<forall>r'. tid (heap m' r') = tid (heap m r')"
  shows "registryOk m'"
  using assms by (auto simp: registryOk_def)

lemma registryOk_deleteKey:
  assumes "registryOk m" and "terminals m' = deleteKey i (terminals m)"
    and "nextRef m' = nextRef m" and "heap m' = heap m"
  shows "registryOk m'"
proof (rule registryOk_subset [OF assms(1)])
  show "distinct (map fst (terminals m'))"
    using assms(1,2) by (simp add: registryOk_def distinct_deleteKey)
  show "set (terminals m') \<subseteq> set (terminals m)" by (simp add: assms(2) set_deleteKey)
  show "nextRef m' = nextRef m" by (rule assms(3))
  show "\<forall>r'. tid (heap m' r') = tid (heap m r')" by (simp add: assms(4))
qed

lemma registryOk_destroy:
  assumes "registryOk m"
  shows "registryOk (snd (destroy m i))"
proof (cases "map_of (terminals m) i")
  case None
  with assms show ?thesis by (simp add: destroy_unknown)
next
  case (Some r)
  show ?thesis
  proof (cases "killThrows m (pty (heap m r))")
    case None
    have "nextRef (snd (destroy m i)) = nextRef m"
      using Some None
      by (simp add: destroy_def Let_def ptyKill_def removeSession_def split: option.splits)
    then show ?thesis
      using registryOk_deleteKey [OF assms destroy_killed(2) [OF Some None]]
        destroy_killed(5) [OF Some None] by simp
  next
    case (Some e)
    with \<open>map_of (terminals m) i = Some r\<close> have
      "terminals (snd (destroy m i)) = terminals m" "nextRef (snd (destroy m i)) = nextRef m"
      "heap (snd (destroy m i)) = heap m"
      by (simp_all add: destroy_def Let_def ptyKill_def removeSession_def split: option.splits)
    then show ?thesis by (intro registryOk_heap_update [OF assms]) simp_all
  qed
qed

lemma registryOk_onExit:
  assumes "registryOk m"
  shows "registryOk (onExit m r code)"
proof (rule registryOk_deleteKey [OF assms])
  show "terminals (onExit m r code) = deleteKey (tid (heap m r)) (terminals m)"
    by (simp add: onExit_def Let_def send_def removeSession_def split: option.splits)
  show "nextRef (onExit m r code) = nextRef m"
    by (simp add: onExit_def Let_def send_def removeSession_def split: option.splits)
  show "heap (onExit m r code) = heap m"
    by (simp add: onExit_def Let_def send_def removeSession_def split: option.splits)
qed

lemma registryOk_onData: "registryOk m \<Longrightarrow> registryOk (onData m r d)"
  by (erule registryOk_heap_update) simp_all

lemma registryOk_checkForSession: "registryOk m \<Longrightarrow> registryOk (fst (checkForSession m task))"
  by (auto simp: registryOk_def checkForSession_def Let_def heap_adoptSessionId split: option.splits)

lemma registryOk_claude_commands:
  assumes "registryOk m"
  shows "registryOk (fst (invokeClaude m i dir))" and "registryOk (resumeClaude m i sessionId)"
proof -
  show "registryOk (fst (invokeClaude m i dir))"
  proof (cases "map_of (terminals m) i")
    case None
    with assms show ?thesis by (simp add: claude_commands_unknown)
  next
    case (Some r)
    show ?thesis
      by (rule registryOk_heap_update [OF assms invokeClaude_known(3,4) [OF Some]])
         (simp add: invokeClaude_known(1) [OF Some])
  qed
  show "registryOk (resumeClaude m i sessionId)"
  proof (cases "map_of (terminals m) i")
    case None
    with assms show ?thesis by (simp add: claude_commands_unknown)
  next
    case (Some r)
    show ?thesis
      by (rule registryOk_heap_update [OF assms resumeClaude_known(3,4) [OF Some]])
         (simp add: resumeClaude_known(1) [OF Some])
  qed
qed

lemma registryOk_setTitle: "registryOk m \<Longrightarrow> registryOk (setTitle m i t)"
  by (auto simp: registryOk_def setTitle_def update_def split: option.splits)

lemma registryOk_killAll: "registryOk (killAll m)"
  by (simp add: registryOk_def killAll_effects)

end
